theory Spec2Isabelle
  imports Complex_Main "HOL-Library.Word"
begin

unbundle bit_operations_syntax

section \<open>The platform: JavaScript numbers and the Buffer primitives\<close>

text \<open>
  The two classes \<open>StreamOut\<close> (stream-out.ts) and \<open>StreamIn\<close> are thin wrappers around
  the \<open>Buffer\<close> type of the JavaScript runtime. The primitives they call
  (\<open>Buffer.alloc\<close>, \<open>subarray\<close>, \<open>Buffer.concat\<close>, \<open>writeUint8\<close>, \<open>readUint8\<close>, ...)
  are modelled here after the runtime's library (Node.js, lib/buffer.js and
  lib/internal/buffer.js), always at the default offset 0, which is the only offset the
  two classes use.

  A buffer is a list of bytes. Cursor positions and lengths are integers. JavaScript
  adds them as doubles (\<open>this.pos += length\<close>), and that sum is the sum of the integers
  when both operands and the result are safe integers, at most \<open>2 ^ 53 - 1\<close> in absolute
  value; beyond that range the double sum is rounded. The definitions below compute
  the integer sum, so a statement about the value of a moved seek pointer carries the
  hypothesis that the pointer, the step and their sum are safe integers. The value
  handed to a \<open>writeX\<close> method is a JavaScript number and need not be an integer: it is a
  finite number (a rational here, which covers every finite double), NaN, or one of the
  two infinities.
\<close>

type_synonym byte = "8 word"

datatype number = Fin rat | NaN | PosInf | NegInf

datatype error = ERR_OUT_OF_RANGE | ERR_BUFFER_OUT_OF_BOUNDS

text \<open>Both error codes are thrown as instances of JavaScript's \<open>RangeError\<close>.\<close>

text \<open>
  \<open>Number.isSafeInteger(n)\<close> on an integer: the range in which every integer is a double
  and sums that stay inside are exact.
\<close>

definition Number_isSafeInteger :: "int \<Rightarrow> bool" where
  "Number_isSafeInteger n = (- 9007199254740991 \<le> n \<and> n \<le> 9007199254740991)"

text \<open>
  \<open>kMaxLength\<close> (\<open>buffer.constants.MAX_LENGTH\<close>): the largest size the runtime accepts for
  a buffer, \<open>2 ^ 53 - 1\<close> on 64-bit platforms.
\<close>

definition kMaxLength :: int where
  "kMaxLength = 9007199254740991"

text \<open>The comparisons \<open>value > max\<close> and \<open>value < min\<close>; both are false on NaN.\<close>

definition number_gt :: "number \<Rightarrow> int \<Rightarrow> bool" where
  "number_gt v m = (case v of Fin q \<Rightarrow> of_int m < q | NaN \<Rightarrow> False
                     | PosInf \<Rightarrow> True | NegInf \<Rightarrow> False)"

definition number_lt :: "number \<Rightarrow> int \<Rightarrow> bool" where
  "number_lt v m = (case v of Fin q \<Rightarrow> q < of_int m | NaN \<Rightarrow> False
                     | PosInf \<Rightarrow> False | NegInf \<Rightarrow> True)"

text \<open>
  Storing a number into a byte of a buffer converts it with ToUint8, and \<open>value >>> 8\<close>
  converts it with ToUint32 first: NaN and the infinities become 0, a finite number is
  truncated towards zero and then reduced modulo \<open>2 ^ 8\<close> (respectively \<open>2 ^ 32\<close>).
\<close>

definition truncate_number :: "number \<Rightarrow> int" where
  "truncate_number v = (case v of Fin q \<Rightarrow> (if 0 \<le> q then \<lfloor>q\<rfloor> else \<lceil>q\<rceil>)
                         | NaN \<Rightarrow> 0 | PosInf \<Rightarrow> 0 | NegInf \<Rightarrow> 0)"

definition ToUint8 :: "number \<Rightarrow> byte" where
  "ToUint8 v = word_of_int (truncate_number v)"

definition ToUint32 :: "number \<Rightarrow> 32 word" where
  "ToUint32 v = word_of_int (truncate_number v)"

text \<open>\<open>buf[i]\<close>: the byte at index \<open>i\<close>, or \<open>undefined\<close> (here \<open>None\<close>) out of range.\<close>

definition index :: "byte list \<Rightarrow> nat \<Rightarrow> byte option" where
  "index buf i = (if i < length buf then Some (buf ! i) else None)"

text \<open>
  \<open>boundsError(offset, length)\<close> at an integer offset: which error is thrown when an
  access does not fit the buffer.
\<close>

definition boundsError :: "int \<Rightarrow> error" where
  "boundsError len = (if len < 0 then ERR_BUFFER_OUT_OF_BOUNDS else ERR_OUT_OF_RANGE)"

text \<open>
  \<open>Buffer.alloc(size)\<close>: a zero-filled buffer; a size below 0 or above \<open>kMaxLength\<close> is
  rejected.
\<close>

definition Buffer_alloc :: "int \<Rightarrow> error + byte list" where
  "Buffer_alloc sz =
     (if sz < 0 \<or> kMaxLength < sz then Inl ERR_OUT_OF_RANGE
      else Inr (replicate (nat sz) 0))"

text \<open>
  \<open>buf.subarray(start, end)\<close>: both offsets are adjusted to the buffer, a negative one
  counting from the end, and clamped to \<open>[0, length]\<close>; \<open>end\<close> defaults to the length.
  The result is a view on the same bytes; nothing in the two classes writes through a
  view, so the model returns the bytes.
\<close>

definition adjustOffset :: "int \<Rightarrow> int \<Rightarrow> int" where
  "adjustOffset offset len =
     (if offset = 0 then 0
      else if offset < 0 then (if offset + len > 0 then offset + len else 0)
      else if offset < len then offset
      else len)"

definition Buffer_subarray :: "byte list \<Rightarrow> int \<Rightarrow> int option \<Rightarrow> byte list" where
  "Buffer_subarray buf start end =
     (let srcLength = int (length buf);
          start' = adjustOffset start srcLength;
          end' = (case end of None \<Rightarrow> srcLength | Some e \<Rightarrow> adjustOffset e srcLength);
          newLength = (if end' > start' then end' - start' else 0)
      in take (nat newLength) (drop (nat start') buf))"

text \<open>\<open>Buffer.concat(list)\<close>: a new buffer holding the bytes of all the buffers in order.\<close>

definition Buffer_concat :: "byte list list \<Rightarrow> byte list" where
  "Buffer_concat bufs = concat bufs"

subsection \<open>Writing numbers into a buffer\<close>

text \<open>
  The runtime's \<open>writeU_Int8\<close>, \<open>writeU_Int16LE\<close>, ... first check the value against
  the bounds of the integer type, then check that the bytes fit the buffer, then store
  the bytes. They change the buffer in place; the model returns the changed buffer.
\<close>

definition writeU_Int8 :: "byte list \<Rightarrow> number \<Rightarrow> int \<Rightarrow> int \<Rightarrow> error + byte list" where
  "writeU_Int8 buf v mn mx =
     (if number_gt v mx \<or> number_lt v mn then Inl ERR_OUT_OF_RANGE
      else if index buf 0 = None then Inl (boundsError (int (length buf) - 1))
      else Inr (buf[0 := ToUint8 v]))"

definition checkInt :: "number \<Rightarrow> int \<Rightarrow> int \<Rightarrow> byte list \<Rightarrow> nat \<Rightarrow> error option" where
  "checkInt v mn mx buf byteLength =
     (if number_gt v mx \<or> number_lt v mn then Some ERR_OUT_OF_RANGE
      else if index buf 0 = None \<or> index buf byteLength = None
           then Some (boundsError (int (length buf) - (int byteLength + 1)))
      else None)"

definition writeU_Int16LE :: "byte list \<Rightarrow> number \<Rightarrow> int \<Rightarrow> int \<Rightarrow> error + byte list" where
  "writeU_Int16LE buf v mn mx =
     (case checkInt v mn mx buf 1 of
        Some e \<Rightarrow> Inl e
      | None \<Rightarrow> Inr (buf[0 := ToUint8 v, 1 := ucast (drop_bit 8 (ToUint32 v))]))"

definition writeU_Int16BE :: "byte list \<Rightarrow> number \<Rightarrow> int \<Rightarrow> int \<Rightarrow> error + byte list" where
  "writeU_Int16BE buf v mn mx =
     (case checkInt v mn mx buf 1 of
        Some e \<Rightarrow> Inl e
      | None \<Rightarrow> Inr (buf[0 := ucast (drop_bit 8 (ToUint32 v)), 1 := ToUint8 v]))"

definition writeU_Int32LE :: "byte list \<Rightarrow> number \<Rightarrow> int \<Rightarrow> int \<Rightarrow> error + byte list" where
  "writeU_Int32LE buf v mn mx =
     (case checkInt v mn mx buf 3 of
        Some e \<Rightarrow> Inl e
      | None \<Rightarrow>
          (let v1 = drop_bit 8 (ToUint32 v);
               v2 = drop_bit 8 v1;
               v3 = drop_bit 8 v2
           in Inr (buf[0 := ToUint8 v, 1 := ucast v1, 2 := ucast v2, 3 := ucast v3])))"

definition writeU_Int32BE :: "byte list \<Rightarrow> number \<Rightarrow> int \<Rightarrow> int \<Rightarrow> error + byte list" where
  "writeU_Int32BE buf v mn mx =
     (case checkInt v mn mx buf 3 of
        Some e \<Rightarrow> Inl e
      | None \<Rightarrow>
          (let v1 = drop_bit 8 (ToUint32 v);
               v2 = drop_bit 8 v1;
               v3 = drop_bit 8 v2
           in Inr (buf[3 := ToUint8 v, 2 := ucast v1, 1 := ucast v2, 0 := ucast v3])))"

definition Buffer_writeUint8 :: "byte list \<Rightarrow> number \<Rightarrow> error + byte list" where
  "Buffer_writeUint8 buf v = writeU_Int8 buf v 0 0xff"

definition Buffer_writeUint16LE :: "byte list \<Rightarrow> number \<Rightarrow> error + byte list" where
  "Buffer_writeUint16LE buf v = writeU_Int16LE buf v 0 0xffff"

definition Buffer_writeUint32LE :: "byte list \<Rightarrow> number \<Rightarrow> error + byte list" where
  "Buffer_writeUint32LE buf v = writeU_Int32LE buf v 0 0xffffffff"

definition Buffer_writeInt32LE :: "byte list \<Rightarrow> number \<Rightarrow> error + byte list" where
  "Buffer_writeInt32LE buf v = writeU_Int32LE buf v (- 0x80000000) 0x7fffffff"

definition Buffer_writeUint16BE :: "byte list \<Rightarrow> number \<Rightarrow> error + byte list" where
  "Buffer_writeUint16BE buf v = writeU_Int16BE buf v 0 0xffff"

definition Buffer_writeUint32BE :: "byte list \<Rightarrow> number \<Rightarrow> error + byte list" where
  "Buffer_writeUint32BE buf v = writeU_Int32BE buf v 0 0xffffffff"

subsection \<open>Reading numbers from a buffer\<close>

text \<open>
  Each read fetches the first and the last byte of the number and throws when one of
  them is \<open>undefined\<close>, that is, when the buffer is shorter than the number. The signed
  read shifts the last byte with \<open><< 24\<close>, a 32-bit signed shift.
\<close>

definition Buffer_readUint8 :: "byte list \<Rightarrow> error + int" where
  "Buffer_readUint8 buf =
     (case index buf 0 of
        None \<Rightarrow> Inl (boundsError (int (length buf) - 1))
      | Some val \<Rightarrow> Inr (uint val))"

definition Buffer_readUint16LE :: "byte list \<Rightarrow> error + int" where
  "Buffer_readUint16LE buf =
     (case (index buf 0, index buf 1) of
        (Some first_byte, Some last_byte) \<Rightarrow> Inr (uint first_byte + uint last_byte * 2 ^ 8)
      | _ \<Rightarrow> Inl (boundsError (int (length buf) - 2)))"

definition Buffer_readUint32LE :: "byte list \<Rightarrow> error + int" where
  "Buffer_readUint32LE buf =
     (case (index buf 0, index buf 3) of
        (Some first_byte, Some last_byte) \<Rightarrow>
          Inr (uint first_byte + uint (buf ! 1) * 2 ^ 8 + uint (buf ! 2) * 2 ^ 16
               + uint last_byte * 2 ^ 24)
      | _ \<Rightarrow> Inl (boundsError (int (length buf) - 4)))"

definition Buffer_readInt32LE :: "byte list \<Rightarrow> error + int" where
  "Buffer_readInt32LE buf =
     (case (index buf 0, index buf 3) of
        (Some first_byte, Some last_byte) \<Rightarrow>
          Inr (uint first_byte + uint (buf ! 1) * 2 ^ 8 + uint (buf ! 2) * 2 ^ 16
               + sint (push_bit 24 (ucast last_byte :: 32 word)))
      | _ \<Rightarrow> Inl (boundsError (int (length buf) - 4)))"

definition Buffer_readUint16BE :: "byte list \<Rightarrow> error + int" where
  "Buffer_readUint16BE buf =
     (case (index buf 0, index buf 1) of
        (Some first_byte, Some last_byte) \<Rightarrow> Inr (uint first_byte * 2 ^ 8 + uint last_byte)
      | _ \<Rightarrow> Inl (boundsError (int (length buf) - 2)))"

definition Buffer_readUint32BE :: "byte list \<Rightarrow> error + int" where
  "Buffer_readUint32BE buf =
     (case (index buf 0, index buf 3) of
        (Some first_byte, Some last_byte) \<Rightarrow>
          Inr (uint first_byte * 2 ^ 24 + uint (buf ! 1) * 2 ^ 16 + uint (buf ! 2) * 2 ^ 8
               + uint last_byte)
      | _ \<Rightarrow> Inl (boundsError (int (length buf) - 4)))"

section \<open>StreamOut (stream-out.ts)\<close>

text \<open>
  The writer: a buffer and a seek pointer. A method that can throw returns the error
  or \<open>()\<close> together with the state of the object when it returns or throws. The new
  seek pointer of \<open>writeBytes\<close>, \<open>this.pos += bytes.length\<close>, is the integer sum (exact on
  safe integers).
\<close>

record StreamOut =
  buffer :: "byte list"
  pos :: int

definition StreamOut_new :: StreamOut where
  "StreamOut_new = \<lparr>StreamOut.buffer = [], StreamOut.pos = 0\<rparr>"

definition StreamOut_bytes :: "StreamOut \<Rightarrow> byte list" where
  "StreamOut_bytes s = StreamOut.buffer s"

definition StreamOut_size :: "StreamOut \<Rightarrow> int" where
  "StreamOut_size s = int (length (StreamOut.buffer s))"

definition StreamOut_seek :: "int \<Rightarrow> StreamOut \<Rightarrow> StreamOut" where
  "StreamOut_seek p s = s\<lparr>StreamOut.pos := p\<rparr>"

definition StreamOut_writeBytes :: "byte list \<Rightarrow> StreamOut \<Rightarrow> StreamOut" where
  "StreamOut_writeBytes bytes s =
     (let before = Buffer_subarray (StreamOut.buffer s) 0 (Some (StreamOut.pos s));
          after = Buffer_subarray (StreamOut.buffer s) (StreamOut.pos s) None
      in \<lparr>StreamOut.buffer = Buffer_concat [before, bytes, after],
          StreamOut.pos = StreamOut.pos s + int (length bytes)\<rparr>)"

definition StreamOut_skip :: "int \<Rightarrow> StreamOut \<Rightarrow> (error + unit) \<times> StreamOut" where
  "StreamOut_skip len s =
     (case Buffer_alloc len of
        Inl e \<Rightarrow> (Inl e, s)
      | Inr zeros \<Rightarrow> (Inr (), StreamOut_writeBytes zeros s))"

definition StreamOut_writeUint8 :: "number \<Rightarrow> StreamOut \<Rightarrow> (error + unit) \<times> StreamOut" where
  "StreamOut_writeUint8 uint8 s =
     (case Buffer_alloc 1 of
        Inl e \<Rightarrow> (Inl e, s)
      | Inr bytes \<Rightarrow>
          (case Buffer_writeUint8 bytes uint8 of
             Inl e \<Rightarrow> (Inl e, s)
           | Inr bytes' \<Rightarrow> (Inr (), StreamOut_writeBytes bytes' s)))"

definition StreamOut_writeUint16LE :: "number \<Rightarrow> StreamOut \<Rightarrow> (error + unit) \<times> StreamOut" where
  "StreamOut_writeUint16LE uint16 s =
     (case Buffer_alloc 2 of
        Inl e \<Rightarrow> (Inl e, s)
      | Inr bytes \<Rightarrow>
          (case Buffer_writeUint16LE bytes uint16 of
             Inl e \<Rightarrow> (Inl e, s)
           | Inr bytes' \<Rightarrow> (Inr (), StreamOut_writeBytes bytes' s)))"

definition StreamOut_writeUint32LE :: "number \<Rightarrow> StreamOut \<Rightarrow> (error + unit) \<times> StreamOut" where
  "StreamOut_writeUint32LE uint32 s =
     (case Buffer_alloc 4 of
        Inl e \<Rightarrow> (Inl e, s)
      | Inr bytes \<Rightarrow>
          (case Buffer_writeUint32LE bytes uint32 of
             Inl e \<Rightarrow> (Inl e, s)
           | Inr bytes' \<Rightarrow> (Inr (), StreamOut_writeBytes bytes' s)))"

definition StreamOut_writeInt32LE :: "number \<Rightarrow> StreamOut \<Rightarrow> (error + unit) \<times> StreamOut" where
  "StreamOut_writeInt32LE int32 s =
     (case Buffer_alloc 4 of
        Inl e \<Rightarrow> (Inl e, s)
      | Inr bytes \<Rightarrow>
          (case Buffer_writeInt32LE bytes int32 of
             Inl e \<Rightarrow> (Inl e, s)
           | Inr bytes' \<Rightarrow> (Inr (), StreamOut_writeBytes bytes' s)))"

definition StreamOut_writeUint16BE :: "number \<Rightarrow> StreamOut \<Rightarrow> (error + unit) \<times> StreamOut" where
  "StreamOut_writeUint16BE uint16 s =
     (case Buffer_alloc 2 of
        Inl e \<Rightarrow> (Inl e, s)
      | Inr bytes \<Rightarrow>
          (case Buffer_writeUint16BE bytes uint16 of
             Inl e \<Rightarrow> (Inl e, s)
           | Inr bytes' \<Rightarrow> (Inr (), StreamOut_writeBytes bytes' s)))"

definition StreamOut_writeUint32BE :: "number \<Rightarrow> StreamOut \<Rightarrow> (error + unit) \<times> StreamOut" where
  "StreamOut_writeUint32BE uint32 s =
     (case Buffer_alloc 4 of
        Inl e \<Rightarrow> (Inl e, s)
      | Inr bytes \<Rightarrow>
          (case Buffer_writeUint32BE bytes uint32 of
             Inl e \<Rightarrow> (Inl e, s)
           | Inr bytes' \<Rightarrow> (Inr (), StreamOut_writeBytes bytes' s)))"

section \<open>StreamIn\<close>

text \<open>
  The reader: a buffer fixed at construction and a seek pointer. Every read first takes
  its bytes with \<open>readBytes\<close>, which moves the seek pointer, and then decodes them; the
  state returned with an error is the state at the throw, the pointer already moved. The
  sums \<open>this.pos + length\<close> of \<open>skip\<close> and \<open>readBytes\<close> are integer sums (exact on safe
  integers).
\<close>

record StreamIn =
  buffer :: "byte list"
  pos :: int

definition StreamIn_new :: "byte list \<Rightarrow> StreamIn" where
  "StreamIn_new buf = \<lparr>StreamIn.buffer = buf, StreamIn.pos = 0\<rparr>"

definition StreamIn_hasData :: "StreamIn \<Rightarrow> bool" where
  "StreamIn_hasData s = (StreamIn.pos s < int (length (StreamIn.buffer s)))"

definition StreamIn_size :: "StreamIn \<Rightarrow> int" where
  "StreamIn_size s = int (length (StreamIn.buffer s))"

definition StreamIn_skip :: "int \<Rightarrow> StreamIn \<Rightarrow> StreamIn" where
  "StreamIn_skip len s = s\<lparr>StreamIn.pos := StreamIn.pos s + len\<rparr>"

definition StreamIn_seek :: "int \<Rightarrow> StreamIn \<Rightarrow> StreamIn" where
  "StreamIn_seek p s = s\<lparr>StreamIn.pos := p\<rparr>"

definition StreamIn_readBytes :: "int \<Rightarrow> StreamIn \<Rightarrow> byte list \<times> StreamIn" where
  "StreamIn_readBytes len s =
     (let read = Buffer_subarray (StreamIn.buffer s) (StreamIn.pos s)
                   (Some (StreamIn.pos s + len))
      in (read, s\<lparr>StreamIn.pos := StreamIn.pos s + len\<rparr>))"

definition StreamIn_readUint8 :: "StreamIn \<Rightarrow> (error + int) \<times> StreamIn" where
  "StreamIn_readUint8 s =
     (case StreamIn_readBytes 1 s of (read, s') \<Rightarrow> (Buffer_readUint8 read, s'))"

definition StreamIn_readUint16LE :: "StreamIn \<Rightarrow> (error + int) \<times> StreamIn" where
  "StreamIn_readUint16LE s =
     (case StreamIn_readBytes 2 s of (read, s') \<Rightarrow> (Buffer_readUint16LE read, s'))"

definition StreamIn_readUint32LE :: "StreamIn \<Rightarrow> (error + int) \<times> StreamIn" where
  "StreamIn_readUint32LE s =
     (case StreamIn_readBytes 4 s of (read, s') \<Rightarrow> (Buffer_readUint32LE read, s'))"

definition StreamIn_readInt32LE :: "StreamIn \<Rightarrow> (error + int) \<times> StreamIn" where
  "StreamIn_readInt32LE s =
     (case StreamIn_readBytes 4 s of (read, s') \<Rightarrow> (Buffer_readInt32LE read, s'))"

definition StreamIn_readUint16BE :: "StreamIn \<Rightarrow> (error + int) \<times> StreamIn" where
  "StreamIn_readUint16BE s =
     (case StreamIn_readBytes 2 s of (read, s') \<Rightarrow> (Buffer_readUint16BE read, s'))"

definition StreamIn_readUint32BE :: "StreamIn \<Rightarrow> (error + int) \<times> StreamIn" where
  "StreamIn_readUint32BE s =
     (case StreamIn_readBytes 4 s of (read, s') \<Rightarrow> (Buffer_readUint32BE read, s'))"

section \<open>Writing a value and reading it back\<close>

text \<open>
  The experiment of the round-trip property: write one value with \<open>writeX\<close> into a
  writer, hand the writer's \<open>bytes()\<close> to a new reader, move the reader to the position
  the writer had before the write, and read with \<open>readX\<close>.
\<close>

definition write_then_read ::
  "(number \<Rightarrow> StreamOut \<Rightarrow> (error + unit) \<times> StreamOut) \<Rightarrow>
   (StreamIn \<Rightarrow> (error + int) \<times> StreamIn) \<Rightarrow> number \<Rightarrow> StreamOut \<Rightarrow> error + int" where
  "write_then_read writeX readX v w =
     (case writeX v w of
        (Inl e, w') \<Rightarrow> Inl e
      | (Inr u, w') \<Rightarrow>
          fst (readX (StreamIn_seek (StreamOut.pos w) (StreamIn_new (StreamOut_bytes w')))))"

section \<open>Integer arithmetic on bytes\<close>

lemma shift_sign_arith:
  fixes x :: int
  assumes "0 \<le> x" "x < 256"
  shows "(x * 16777216 + 2147483648) mod 4294967296 - 2147483648 =
         (if x < 128 then x * 16777216 else x * 16777216 - 4294967296)"
proof (cases "x < 128")
  case True
  then have "(x * 16777216 + 2147483648) mod 4294967296 = x * 16777216 + 2147483648"
    using assms by (intro mod_pos_pos_trivial) simp_all
  with True show ?thesis by simp
next
  case False
  have "x * 16777216 + 2147483648 = (x * 16777216 - 2147483648) + 4294967296"
    by simp
  then have "(x * 16777216 + 2147483648) mod 4294967296
        = (x * 16777216 - 2147483648) mod 4294967296"
    by (simp only: mod_add_self2)
  also have "\<dots> = x * 16777216 - 2147483648"
    using assms False by (intro mod_pos_pos_trivial) simp_all
  finally show ?thesis using False by simp
qed

lemma div_bound:
  fixes u :: int
  assumes "0 \<le> u" "u < m * 256"
  shows "0 \<le> u div 256 \<and> u div 256 < m"
proof -
  have "u = 256 * (u div 256) + u mod 256" by simp
  moreover have "0 \<le> u mod 256" by simp
  ultimately have "256 * (u div 256) < m * 256" using assms(2) by linarith
  then have "u div 256 < m" by simp
  moreover have "0 \<le> u div 256" using assms(1) by (simp add: pos_imp_zdiv_nonneg_iff)
  ultimately show ?thesis by simp
qed

lemma bytes16:
  fixes u :: int
  assumes "0 \<le> u" "u < 65536"
  shows "u mod 256 + u div 256 mod 256 * 256 = u"
proof -
  have "0 \<le> u div 256 \<and> u div 256 < 256"
    using assms by (intro div_bound) simp_all
  then have "u div 256 mod 256 = u div 256" by simp
  then show ?thesis by simp
qed

lemma bytes32:
  fixes u :: int
  assumes "0 \<le> u" "u < 4294967296"
  shows "u mod 256 + u div 256 mod 256 * 256 + u div 65536 mod 256 * 65536
         + u div 16777216 mod 256 * 16777216 = u"
    and "u div 16777216 mod 256 = u div 16777216"
    and "u div 16777216 < 128 \<longleftrightarrow> u < 2147483648"
proof -
  define q1 where "q1 = u div 256"
  define q2 where "q2 = q1 div 256"
  define q3 where "q3 = q2 div 256"
  have d2: "u div 65536 = q2"
    using zdiv_zmult2_eq [of 256 u 256] by (simp add: q1_def q2_def)
  have d3: "u div 16777216 = q3"
    using zdiv_zmult2_eq [of 256 u 65536] by (simp add: d2 q3_def)
  have b1: "0 \<le> q1 \<and> q1 < 16777216"
    unfolding q1_def using assms by (intro div_bound) simp_all
  have b2: "0 \<le> q2 \<and> q2 < 65536"
    unfolding q2_def using b1 by (intro div_bound) simp_all
  have b3: "0 \<le> q3 \<and> q3 < 256"
    unfolding q3_def using b2 by (intro div_bound) simp_all
  have top: "q3 mod 256 = q3" using b3 by simp
  have s0: "u = u mod 256 + 256 * q1" unfolding q1_def by simp
  have s1: "q1 = q1 mod 256 + 256 * q2" unfolding q2_def by simp
  have s2: "q2 = q2 mod 256 + 256 * q3" unfolding q3_def by simp
  define a where "a = u mod 256"
  define b where "b = q1 mod 256"
  define c where "c = q2 mod 256"
  have r: "0 \<le> a \<and> a < 256" "0 \<le> b \<and> b < 256" "0 \<le> c \<and> c < 256"
    by (simp_all add: a_def b_def c_def)
  have e: "u = a + 256 * q1" "q1 = b + 256 * q2" "q2 = c + 256 * q3"
    using s0 s1 s2 by (simp_all add: a_def b_def c_def)
  have "a + b * 256 + c * 65536 + q3 * 16777216 = u"
    using e by simp
  then show "u mod 256 + u div 256 mod 256 * 256 + u div 65536 mod 256 * 65536
         + u div 16777216 mod 256 * 16777216 = u"
    by (simp only: d2 d3 top) (simp add: a_def b_def c_def q1_def)
  show "u div 16777216 mod 256 = u div 16777216"
    by (simp only: d3 top)
  have "q3 < 128 \<longleftrightarrow> u < 2147483648"
    using e r b3 by auto
  then show "u div 16777216 < 128 \<longleftrightarrow> u < 2147483648"
    by (simp only: d3)
qed

lemma mod_2_32_cases:
  fixes v :: int
  assumes "- 2147483648 \<le> v" "v \<le> 2147483647"
  shows "v mod 4294967296 = (if 0 \<le> v then v else v + 4294967296)"
proof (cases "0 \<le> v")
  case True
  then show ?thesis using assms by simp
next
  case False
  have "v mod 4294967296 = (v + 4294967296) mod 4294967296"
    by (simp only: mod_add_self2)
  also have "\<dots> = v + 4294967296"
    using assms False by (intro mod_pos_pos_trivial) simp_all
  finally show ?thesis using False by simp
qed

lemma bytes16_be:
  fixes u :: int
  assumes "0 \<le> u" "u < 65536"
  shows "u div 256 mod 256 * 256 + u mod 256 = u"
  using bytes16 [OF assms] by (simp only: add.commute)

lemma bytes32_be:
  fixes u :: int
  assumes "0 \<le> u" "u < 4294967296"
  shows "u div 16777216 mod 256 * 16777216 + u div 65536 mod 256 * 65536
         + u div 256 mod 256 * 256 + u mod 256 = u"
  using bytes32(1) [OF assms] by (simp only: ac_simps)

section \<open>Words and bytes\<close>

lemma truncate_number_of_int: "truncate_number (Fin (of_int v)) = v"
  by (simp add: truncate_number_def)

lemma uint_ToUint8: "uint (ToUint8 (Fin (of_int v))) = v mod 256"
  by (simp add: ToUint8_def truncate_number_of_int uint_word_of_int)

lemma uint_ToUint32: "uint (ToUint32 (Fin (of_int v))) = v mod 4294967296"
  by (simp add: ToUint32_def truncate_number_of_int uint_word_of_int)

lemma uint_ucast_drop_bit:
  "uint (ucast (drop_bit n (w :: 32 word)) :: byte) = uint w div 2 ^ n mod 256"
proof -
  have t: "take_bit 32 (uint w) = uint w"
    using uint_lt2p [of w] by (simp add: take_bit_int_eq_self_iff)
  have "uint (ucast (drop_bit n w) :: byte) = take_bit 8 (uint (drop_bit n w))"
    by (simp add: unsigned_ucast_eq)
  also have "uint (drop_bit n w) = drop_bit n (uint w)"
    by (simp add: unsigned_drop_bit_eq t)
  finally show ?thesis
    by (simp only: take_bit_eq_mod drop_bit_eq_div) simp
qed

lemma uint_byte1: "uint (ucast (drop_bit 8 (w :: 32 word)) :: byte) = uint w div 256 mod 256"
  using uint_ucast_drop_bit [of 8 w] by simp

lemma uint_byte2:
  "uint (ucast (drop_bit 8 (drop_bit 8 (w :: 32 word))) :: byte) = uint w div 65536 mod 256"
  using uint_ucast_drop_bit [of 16 w] by (simp only: drop_bit_drop_bit) simp

lemma uint_byte3:
  "uint (ucast (drop_bit 8 (drop_bit 8 (drop_bit 8 (w :: 32 word)))) :: byte) =
     uint w div 16777216 mod 256"
  using uint_ucast_drop_bit [of 24 w] by (simp only: drop_bit_drop_bit) simp

lemma sint_shift24:
  "sint (push_bit 24 (ucast (b :: byte) :: 32 word)) =
     (if uint b < 128 then uint b * 16777216 else uint b * 16777216 - 4294967296)"
proof -
  have r: "0 \<le> uint b" "uint b < 256"
    using uint_lt2p [of b] by simp_all
  have c: "uint (ucast b :: 32 word) = uint b"
    using r by (simp add: unsigned_ucast_eq take_bit_int_eq_self_iff)
  have "uint (push_bit 24 (ucast b :: 32 word)) = take_bit 32 (push_bit 24 (uint b))"
    by (simp only: unsigned_push_bit_eq c) simp
  then have u: "uint (push_bit 24 (ucast b :: 32 word)) = uint b * 16777216"
    using r by (simp add: take_bit_eq_mod push_bit_eq_mult)
  have "sint (push_bit 24 (ucast b :: 32 word)) =
          signed_take_bit 31 (uint (push_bit 24 (ucast b :: 32 word)))"
    by (simp only: sint_uint) simp
  also have "\<dots> = (uint b * 16777216 + 2147483648) mod 4294967296 - 2147483648"
    by (simp only: u signed_take_bit_eq_take_bit_shift take_bit_eq_mod) simp
  finally show ?thesis
    using shift_sign_arith [OF r] by simp
qed

section \<open>Slices and the splice of writeBytes\<close>

lemma adjustOffset_range: "0 \<le> len \<Longrightarrow> 0 \<le> adjustOffset p len \<and> adjustOffset p len \<le> len"
  by (simp add: adjustOffset_def)

lemma adjustOffset_inside: "0 \<le> p \<Longrightarrow> p \<le> len \<Longrightarrow> adjustOffset p len = p"
  by (simp add: adjustOffset_def)

lemma adjustOffset_beyond: "0 \<le> len \<Longrightarrow> len < p \<Longrightarrow> adjustOffset p len = len"
  by (simp add: adjustOffset_def)

lemma subarray_before:
  "Buffer_subarray buf 0 (Some p) = take (nat (adjustOffset p (int (length buf)))) buf"
  by (simp add: Buffer_subarray_def Let_def adjustOffset_def)

lemma subarray_after:
  "Buffer_subarray buf p None = drop (nat (adjustOffset p (int (length buf)))) buf"
proof -
  let ?n = "int (length buf)" and ?k = "adjustOffset p (int (length buf))"
  have r: "0 \<le> ?k \<and> ?k \<le> ?n" by (rule adjustOffset_range) simp
  have "length buf - nat ?k \<le> nat (if ?n > ?k then ?n - ?k else 0)"
    using r by auto
  then show ?thesis
    by (simp add: Buffer_subarray_def Let_def)
qed

lemma writeBytes_buffer:
  "StreamOut.buffer (StreamOut_writeBytes bytes s) =
     take (nat (adjustOffset (StreamOut.pos s) (StreamOut_size s))) (StreamOut.buffer s) @ bytes
     @ drop (nat (adjustOffset (StreamOut.pos s) (StreamOut_size s))) (StreamOut.buffer s)"
  by (simp add: StreamOut_writeBytes_def Let_def subarray_before subarray_after
      Buffer_concat_def StreamOut_size_def)

lemma writeBytes_pos:
  "StreamOut.pos (StreamOut_writeBytes bytes s) = StreamOut.pos s + int (length bytes)"
  by (simp add: StreamOut_writeBytes_def Let_def)

lemma writeBytes_size:
  "StreamOut_size (StreamOut_writeBytes bytes s) = StreamOut_size s + int (length bytes)"
  by (simp add: StreamOut_size_def writeBytes_buffer)

lemma subarray_middle:
  "Buffer_subarray (xs @ ys @ zs) (int (length xs)) (Some (int (length xs) + int (length ys))) = ys"
proof -
  let ?n = "int (length (xs @ ys @ zs))"
  have a: "adjustOffset (int (length xs)) ?n = int (length xs)"
    by (rule adjustOffset_inside) simp_all
  have b: "adjustOffset (int (length xs) + int (length ys)) ?n = int (length xs) + int (length ys)"
    by (rule adjustOffset_inside) simp_all
  show ?thesis
    unfolding Buffer_subarray_def Let_def option.case a b by simp
qed

lemma writeBytes_inside:
  assumes "0 \<le> StreamOut.pos s" "StreamOut.pos s \<le> StreamOut_size s"
  shows "StreamOut.buffer (StreamOut_writeBytes bytes s) =
           take (nat (StreamOut.pos s)) (StreamOut.buffer s) @ bytes
           @ drop (nat (StreamOut.pos s)) (StreamOut.buffer s)"
  using assms by (simp add: writeBytes_buffer adjustOffset_inside)

lemma readBytes_written:
  assumes "0 \<le> StreamOut.pos s" "StreamOut.pos s \<le> StreamOut_size s"
  shows "StreamIn_readBytes (int (length bytes))
           (StreamIn_seek (StreamOut.pos s)
              (StreamIn_new (StreamOut_bytes (StreamOut_writeBytes bytes s)))) =
         (bytes, \<lparr>StreamIn.buffer = StreamOut_bytes (StreamOut_writeBytes bytes s),
                  StreamIn.pos = StreamOut.pos (StreamOut_writeBytes bytes s)\<rparr>)"
proof -
  let ?xs = "take (nat (StreamOut.pos s)) (StreamOut.buffer s)"
  let ?zs = "drop (nat (StreamOut.pos s)) (StreamOut.buffer s)"
  have len: "int (length ?xs) = StreamOut.pos s"
    using assms by (simp add: StreamOut_size_def)
  have "Buffer_subarray (?xs @ bytes @ ?zs) (int (length ?xs))
          (Some (int (length ?xs) + int (length bytes))) = bytes"
    by (rule subarray_middle)
  then have "Buffer_subarray (?xs @ bytes @ ?zs) (StreamOut.pos s)
          (Some (StreamOut.pos s + int (length bytes))) = bytes"
    by (simp only: len)
  then show ?thesis
    by (simp add: StreamIn_readBytes_def StreamIn_seek_def StreamIn_new_def StreamOut_bytes_def
        writeBytes_inside [OF assms] writeBytes_pos Let_def)
qed

section \<open>What the writes store and the reads decode\<close>

lemma alloc_1: "Buffer_alloc 1 = Inr [0]"
  and alloc_2: "Buffer_alloc 2 = Inr [0, 0]"
  and alloc_4: "Buffer_alloc 4 = Inr [0, 0, 0, 0]"
  by (simp_all add: Buffer_alloc_def kMaxLength_def numeral_eq_Suc)

lemma index_simps: "index (x # xs) 0 = Some x" "index [] n = None"
  "index [a, b] (Suc 0) = Some b" "index [a, b, c, d] 3 = Some d"
  "index [a] (Suc 0) = None" "index [a] 3 = None" "index [a, b] 3 = None"
  "index [a, b, c] 3 = None"
  by (simp_all add: index_def)

lemma StreamOut_writeUint8_eq:
  "StreamOut_writeUint8 v s =
     (if number_gt v 255 \<or> number_lt v 0 then (Inl ERR_OUT_OF_RANGE, s)
      else (Inr (), StreamOut_writeBytes [ToUint8 v] s))"
  by (simp add: StreamOut_writeUint8_def alloc_1 Buffer_writeUint8_def writeU_Int8_def
      index_simps)

lemma StreamOut_writeUint16LE_eq:
  "StreamOut_writeUint16LE v s =
     (if number_gt v 65535 \<or> number_lt v 0 then (Inl ERR_OUT_OF_RANGE, s)
      else (Inr (), StreamOut_writeBytes [ToUint8 v, ucast (drop_bit 8 (ToUint32 v))] s))"
  by (simp add: StreamOut_writeUint16LE_def alloc_2 Buffer_writeUint16LE_def
      writeU_Int16LE_def checkInt_def index_simps)

lemma StreamOut_writeUint16BE_eq:
  "StreamOut_writeUint16BE v s =
     (if number_gt v 65535 \<or> number_lt v 0 then (Inl ERR_OUT_OF_RANGE, s)
      else (Inr (), StreamOut_writeBytes [ucast (drop_bit 8 (ToUint32 v)), ToUint8 v] s))"
  by (simp add: StreamOut_writeUint16BE_def alloc_2 Buffer_writeUint16BE_def
      writeU_Int16BE_def checkInt_def index_simps)

lemma StreamOut_writeUint32LE_eq:
  "StreamOut_writeUint32LE v s =
     (if number_gt v 4294967295 \<or> number_lt v 0 then (Inl ERR_OUT_OF_RANGE, s)
      else (Inr (), StreamOut_writeBytes
              [ToUint8 v, ucast (drop_bit 8 (ToUint32 v)),
               ucast (drop_bit 8 (drop_bit 8 (ToUint32 v))),
               ucast (drop_bit 8 (drop_bit 8 (drop_bit 8 (ToUint32 v))))] s))"
  by (simp add: StreamOut_writeUint32LE_def alloc_4 Buffer_writeUint32LE_def
      writeU_Int32LE_def checkInt_def index_simps Let_def)

lemma StreamOut_writeInt32LE_eq:
  "StreamOut_writeInt32LE v s =
     (if number_gt v 2147483647 \<or> number_lt v (- 2147483648) then (Inl ERR_OUT_OF_RANGE, s)
      else (Inr (), StreamOut_writeBytes
              [ToUint8 v, ucast (drop_bit 8 (ToUint32 v)),
               ucast (drop_bit 8 (drop_bit 8 (ToUint32 v))),
               ucast (drop_bit 8 (drop_bit 8 (drop_bit 8 (ToUint32 v))))] s))"
  by (simp add: StreamOut_writeInt32LE_def alloc_4 Buffer_writeInt32LE_def
      writeU_Int32LE_def checkInt_def index_simps Let_def)

lemma StreamOut_writeUint32BE_eq:
  "StreamOut_writeUint32BE v s =
     (if number_gt v 4294967295 \<or> number_lt v 0 then (Inl ERR_OUT_OF_RANGE, s)
      else (Inr (), StreamOut_writeBytes
              [ucast (drop_bit 8 (drop_bit 8 (drop_bit 8 (ToUint32 v)))),
               ucast (drop_bit 8 (drop_bit 8 (ToUint32 v))),
               ucast (drop_bit 8 (ToUint32 v)), ToUint8 v] s))"
  by (simp add: StreamOut_writeUint32BE_def alloc_4 Buffer_writeUint32BE_def
      writeU_Int32BE_def checkInt_def index_simps Let_def)

lemma number_gt_of_int: "number_gt (Fin (of_int v)) m \<longleftrightarrow> m < v"
  and number_lt_of_int: "number_lt (Fin (of_int v)) m \<longleftrightarrow> v < m"
  by (simp_all add: number_gt_def number_lt_def)

lemma read_simps:
  "Buffer_readUint8 [a] = Inr (uint a)"
  "Buffer_readUint16LE [a, b] = Inr (uint a + uint b * 256)"
  "Buffer_readUint16BE [a, b] = Inr (uint a * 256 + uint b)"
  "Buffer_readUint32LE [a, b, c, d] =
     Inr (uint a + uint b * 256 + uint c * 65536 + uint d * 16777216)"
  "Buffer_readUint32BE [a, b, c, d] =
     Inr (uint a * 16777216 + uint b * 65536 + uint c * 256 + uint d)"
  "Buffer_readInt32LE [a, b, c, d] =
     Inr (uint a + uint b * 256 + uint c * 65536 + sint (push_bit 24 (ucast d :: 32 word)))"
  by (simp_all add: Buffer_readUint8_def Buffer_readUint16LE_def Buffer_readUint16BE_def
      Buffer_readUint32LE_def Buffer_readUint32BE_def Buffer_readInt32LE_def index_simps)

lemma write_then_read_via_bytes:
  assumes "0 \<le> StreamOut.pos w" "StreamOut.pos w \<le> StreamOut_size w"
    and wr: "writeX v w = (Inr (), StreamOut_writeBytes bs w)"
    and rd: "\<And>s. readX s =
               (case StreamIn_readBytes (int (length bs)) s of (read, s') \<Rightarrow> (dec read, s'))"
  shows "write_then_read writeX readX v w = dec bs"
  using readBytes_written [OF assms(1,2), of bs] by (simp add: write_then_read_def wr rd)

lemma roundtrip_Uint8:
  assumes "0 \<le> StreamOut.pos w" "StreamOut.pos w \<le> StreamOut_size w"
    and "0 \<le> v" "v \<le> 255"
  shows "write_then_read StreamOut_writeUint8 StreamIn_readUint8 (Fin (of_int v)) w = Inr v"
proof -
  let ?n = "Fin (of_int v)"
  let ?bs = "[ToUint8 ?n]"
  have u: "uint (ToUint32 ?n) = v"
    using assms(3,4) by (simp add: uint_ToUint32)
  have b0: "uint (ToUint8 ?n) = v mod 256"
    by (simp only: uint_ToUint8)
  have lt: "v < 256"
    using assms(4) by simp
  have dec: "Buffer_readUint8 ?bs = Inr v"
    by (simp only: read_simps b0 mod_pos_pos_trivial [OF assms(3) lt])
  have wr: "StreamOut_writeUint8 ?n w = (Inr (), StreamOut_writeBytes ?bs w)"
    using assms(3,4) by (simp add: StreamOut_writeUint8_eq number_gt_of_int number_lt_of_int)
  have rd: "StreamIn_readUint8 s =
      (case StreamIn_readBytes (int (length ?bs)) s of (read, s') \<Rightarrow> (Buffer_readUint8 read, s'))"
    for s
    by (simp add: StreamIn_readUint8_def)
  have "write_then_read StreamOut_writeUint8 StreamIn_readUint8 ?n w = Buffer_readUint8 ?bs"
    by (rule write_then_read_via_bytes
          [where writeX = StreamOut_writeUint8 and dec = Buffer_readUint8, OF assms(1,2) wr rd])
  then show ?thesis
    by (simp only: dec)
qed

lemma roundtrip_Uint16LE:
  assumes "0 \<le> StreamOut.pos w" "StreamOut.pos w \<le> StreamOut_size w"
    and "0 \<le> v" "v \<le> 65535"
  shows "write_then_read StreamOut_writeUint16LE StreamIn_readUint16LE (Fin (of_int v)) w = Inr v"
proof -
  let ?n = "Fin (of_int v)"
  let ?bs = "[ToUint8 ?n, ucast (drop_bit 8 (ToUint32 ?n))]"
  have u: "uint (ToUint32 ?n) = v"
    using assms(3,4) by (simp add: uint_ToUint32)
  have b0: "uint (ToUint8 ?n) = v mod 256"
    by (simp only: uint_ToUint8)
  have b1: "uint (ucast (drop_bit 8 (ToUint32 ?n)) :: byte) = v div 256 mod 256"
    by (simp only: uint_byte1 u)
  have lt: "v < 65536"
    using assms(4) by simp
  have dec: "Buffer_readUint16LE ?bs = Inr v"
    by (simp only: read_simps b0 b1 bytes16 [OF assms(3) lt])
  have wr: "StreamOut_writeUint16LE ?n w = (Inr (), StreamOut_writeBytes ?bs w)"
    using assms(3,4) by (simp add: StreamOut_writeUint16LE_eq number_gt_of_int number_lt_of_int)
  have rd: "StreamIn_readUint16LE s =
      (case StreamIn_readBytes (int (length ?bs)) s of (read, s') \<Rightarrow> (Buffer_readUint16LE read, s'))"
    for s
    by (simp add: StreamIn_readUint16LE_def)
  have "write_then_read StreamOut_writeUint16LE StreamIn_readUint16LE ?n w = Buffer_readUint16LE ?bs"
    by (rule write_then_read_via_bytes
          [where writeX = StreamOut_writeUint16LE and dec = Buffer_readUint16LE, OF assms(1,2) wr rd])
  then show ?thesis
    by (simp only: dec)
qed

lemma roundtrip_Uint16BE:
  assumes "0 \<le> StreamOut.pos w" "StreamOut.pos w \<le> StreamOut_size w"
    and "0 \<le> v" "v \<le> 65535"
  shows "write_then_read StreamOut_writeUint16BE StreamIn_readUint16BE (Fin (of_int v)) w = Inr v"
proof -
  let ?n = "Fin (of_int v)"
  let ?bs = "[ucast (drop_bit 8 (ToUint32 ?n)), ToUint8 ?n]"
  have u: "uint (ToUint32 ?n) = v"
    using assms(3,4) by (simp add: uint_ToUint32)
  have b0: "uint (ToUint8 ?n) = v mod 256"
    by (simp only: uint_ToUint8)
  have b1: "uint (ucast (drop_bit 8 (ToUint32 ?n)) :: byte) = v div 256 mod 256"
    by (simp only: uint_byte1 u)
  have lt: "v < 65536"
    using assms(4) by simp
  have dec: "Buffer_readUint16BE ?bs = Inr v"
    by (simp only: read_simps b0 b1 bytes16_be [OF assms(3) lt])
  have wr: "StreamOut_writeUint16BE ?n w = (Inr (), StreamOut_writeBytes ?bs w)"
    using assms(3,4) by (simp add: StreamOut_writeUint16BE_eq number_gt_of_int number_lt_of_int)
  have rd: "StreamIn_readUint16BE s =
      (case StreamIn_readBytes (int (length ?bs)) s of (read, s') \<Rightarrow> (Buffer_readUint16BE read, s'))"
    for s
    by (simp add: StreamIn_readUint16BE_def)
  have "write_then_read StreamOut_writeUint16BE StreamIn_readUint16BE ?n w = Buffer_readUint16BE ?bs"
    by (rule write_then_read_via_bytes
          [where writeX = StreamOut_writeUint16BE and dec = Buffer_readUint16BE, OF assms(1,2) wr rd])
  then show ?thesis
    by (simp only: dec)
qed

lemma roundtrip_Uint32LE:
  assumes "0 \<le> StreamOut.pos w" "StreamOut.pos w \<le> StreamOut_size w"
    and "0 \<le> v" "v \<le> 4294967295"
  shows "write_then_read StreamOut_writeUint32LE StreamIn_readUint32LE (Fin (of_int v)) w = Inr v"
proof -
  let ?n = "Fin (of_int v)"
  let ?bs = "[ToUint8 ?n, ucast (drop_bit 8 (ToUint32 ?n)),
              ucast (drop_bit 8 (drop_bit 8 (ToUint32 ?n))),
              ucast (drop_bit 8 (drop_bit 8 (drop_bit 8 (ToUint32 ?n))))]"
  have u: "uint (ToUint32 ?n) = v"
    using assms(3,4) by (simp add: uint_ToUint32)
  have b0: "uint (ToUint8 ?n) = v mod 256"
    by (simp only: uint_ToUint8)
  have b1: "uint (ucast (drop_bit 8 (ToUint32 ?n)) :: byte) = v div 256 mod 256"
    by (simp only: uint_byte1 u)
  have b2: "uint (ucast (drop_bit 8 (drop_bit 8 (ToUint32 ?n))) :: byte) = v div 65536 mod 256"
    by (simp only: uint_byte2 u)
  have b3: "uint (ucast (drop_bit 8 (drop_bit 8 (drop_bit 8 (ToUint32 ?n)))) :: byte) = v div 16777216 mod 256"
    by (simp only: uint_byte3 u)
  have lt: "v < 4294967296"
    using assms(4) by simp
  have dec: "Buffer_readUint32LE ?bs = Inr v"
    by (simp only: read_simps b0 b1 b2 b3 bytes32(1) [OF assms(3) lt])
  have wr: "StreamOut_writeUint32LE ?n w = (Inr (), StreamOut_writeBytes ?bs w)"
    using assms(3,4) by (simp add: StreamOut_writeUint32LE_eq number_gt_of_int number_lt_of_int)
  have rd: "StreamIn_readUint32LE s =
      (case StreamIn_readBytes (int (length ?bs)) s of (read, s') \<Rightarrow> (Buffer_readUint32LE read, s'))"
    for s
    by (simp add: StreamIn_readUint32LE_def)
  have "write_then_read StreamOut_writeUint32LE StreamIn_readUint32LE ?n w = Buffer_readUint32LE ?bs"
    by (rule write_then_read_via_bytes
          [where writeX = StreamOut_writeUint32LE and dec = Buffer_readUint32LE, OF assms(1,2) wr rd])
  then show ?thesis
    by (simp only: dec)
qed

lemma roundtrip_Uint32BE:
  assumes "0 \<le> StreamOut.pos w" "StreamOut.pos w \<le> StreamOut_size w"
    and "0 \<le> v" "v \<le> 4294967295"
  shows "write_then_read StreamOut_writeUint32BE StreamIn_readUint32BE (Fin (of_int v)) w = Inr v"
proof -
  let ?n = "Fin (of_int v)"
  let ?bs = "[ucast (drop_bit 8 (drop_bit 8 (drop_bit 8 (ToUint32 ?n)))),
              ucast (drop_bit 8 (drop_bit 8 (ToUint32 ?n))),
              ucast (drop_bit 8 (ToUint32 ?n)), ToUint8 ?n]"
  have u: "uint (ToUint32 ?n) = v"
    using assms(3,4) by (simp add: uint_ToUint32)
  have b0: "uint (ToUint8 ?n) = v mod 256"
    by (simp only: uint_ToUint8)
  have b1: "uint (ucast (drop_bit 8 (ToUint32 ?n)) :: byte) = v div 256 mod 256"
    by (simp only: uint_byte1 u)
  have b2: "uint (ucast (drop_bit 8 (drop_bit 8 (ToUint32 ?n))) :: byte) = v div 65536 mod 256"
    by (simp only: uint_byte2 u)
  have b3: "uint (ucast (drop_bit 8 (drop_bit 8 (drop_bit 8 (ToUint32 ?n)))) :: byte) = v div 16777216 mod 256"
    by (simp only: uint_byte3 u)
  have lt: "v < 4294967296"
    using assms(4) by simp
  have dec: "Buffer_readUint32BE ?bs = Inr v"
    by (simp only: read_simps b0 b1 b2 b3 bytes32_be [OF assms(3) lt])
  have wr: "StreamOut_writeUint32BE ?n w = (Inr (), StreamOut_writeBytes ?bs w)"
    using assms(3,4) by (simp add: StreamOut_writeUint32BE_eq number_gt_of_int number_lt_of_int)
  have rd: "StreamIn_readUint32BE s =
      (case StreamIn_readBytes (int (length ?bs)) s of (read, s') \<Rightarrow> (Buffer_readUint32BE read, s'))"
    for s
    by (simp add: StreamIn_readUint32BE_def)
  have "write_then_read StreamOut_writeUint32BE StreamIn_readUint32BE ?n w = Buffer_readUint32BE ?bs"
    by (rule write_then_read_via_bytes
          [where writeX = StreamOut_writeUint32BE and dec = Buffer_readUint32BE, OF assms(1,2) wr rd])
  then show ?thesis
    by (simp only: dec)
qed

lemma roundtrip_Int32LE:
  assumes "0 \<le> StreamOut.pos w" "StreamOut.pos w \<le> StreamOut_size w"
    and "- 2147483648 \<le> v" "v \<le> 2147483647"
  shows "write_then_read StreamOut_writeInt32LE StreamIn_readInt32LE (Fin (of_int v)) w = Inr v"
proof -
  let ?n = "Fin (of_int v)"
  let ?b1 = "ucast (drop_bit 8 (ToUint32 ?n)) :: byte"
  let ?b2 = "ucast (drop_bit 8 (drop_bit 8 (ToUint32 ?n))) :: byte"
  let ?b3 = "ucast (drop_bit 8 (drop_bit 8 (drop_bit 8 (ToUint32 ?n)))) :: byte"
  let ?bs = "[ToUint8 ?n, ?b1, ?b2, ?b3]"
  define u where "u = v mod 4294967296"
  have u: "uint (ToUint32 ?n) = u"
    by (simp add: uint_ToUint32 u_def)
  have ur: "0 \<le> u" "u < 4294967296"
    by (simp_all add: u_def)
  have uv: "u = (if 0 \<le> v then v else v + 4294967296)"
    unfolding u_def using assms(3,4) by (rule mod_2_32_cases)
  have "v mod 4294967296 mod 256 = v mod 256"
    by (rule mod_mod_cancel) simp
  then have b0: "uint (ToUint8 ?n) = u mod 256"
    by (simp only: uint_ToUint8 u_def)
  have b1: "uint ?b1 = u div 256 mod 256"
    by (simp only: uint_byte1 u)
  have b2: "uint ?b2 = u div 65536 mod 256"
    by (simp only: uint_byte2 u)
  have b3: "uint ?b3 = u div 16777216"
    by (simp only: uint_byte3 u bytes32(2) [OF ur])
  define a where "a = u mod 256"
  define b where "b = u div 256 mod 256"
  define c where "c = u div 65536 mod 256"
  define d where "d = u div 16777216"
  have total: "a + b * 256 + c * 65536 + d * 16777216 = u"
    using bytes32(1) [OF ur] by (simp only: bytes32(2) [OF ur] a_def b_def c_def d_def)
  have top: "d < 128 \<longleftrightarrow> u < 2147483648"
    using bytes32(3) [OF ur] by (simp only: d_def)
  have s: "sint (push_bit 24 (ucast ?b3 :: 32 word)) =
             (if d < 128 then d * 16777216 else d * 16777216 - 4294967296)"
    by (simp only: sint_shift24 b3 d_def)
  have "a + b * 256 + c * 65536 + sint (push_bit 24 (ucast ?b3 :: 32 word)) = v"
  proof (cases "0 \<le> v")
    case True
    then have "u = v" "d < 128" using uv top assms(4) by simp_all
    then show ?thesis using total by (simp only: s) simp
  next
    case False
    then have "u = v + 4294967296" "\<not> d < 128" using uv top assms(3) by simp_all
    then show ?thesis using total by (simp only: s) simp
  qed
  then have "uint (ToUint8 ?n) + uint ?b1 * 256 + uint ?b2 * 65536
             + sint (push_bit 24 (ucast ?b3 :: 32 word)) = v"
    by (simp only: b0 b1 b2 a_def b_def c_def)
  then have dec: "Buffer_readInt32LE ?bs = Inr v"
    by (simp only: read_simps)
  have wr: "StreamOut_writeInt32LE ?n w = (Inr (), StreamOut_writeBytes ?bs w)"
    using assms(3,4) by (simp add: StreamOut_writeInt32LE_eq number_gt_of_int number_lt_of_int)
  have rd: "StreamIn_readInt32LE s =
      (case StreamIn_readBytes (int (length ?bs)) s of
         (read, s') \<Rightarrow> (Buffer_readInt32LE read, s'))"
    for s
    by (simp add: StreamIn_readInt32LE_def)
  have "write_then_read StreamOut_writeInt32LE StreamIn_readInt32LE ?n w
          = Buffer_readInt32LE ?bs"
    by (rule write_then_read_via_bytes
          [where writeX = StreamOut_writeInt32LE and dec = Buffer_readInt32LE,
           OF assms(1,2) wr rd])
  then show ?thesis
    by (simp only: dec)
qed

section \<open>Short reads\<close>

lemma subarray_short:
  assumes "int (length buf) < p + w"
  shows "Buffer_subarray buf p (Some (p + w)) = drop (nat (adjustOffset p (int (length buf)))) buf"
proof -
  have "adjustOffset (p + w) (int (length buf)) = int (length buf)"
    using assms by (intro adjustOffset_beyond) simp_all
  then have "Buffer_subarray buf p (Some (p + w)) = Buffer_subarray buf p None"
    by (simp add: Buffer_subarray_def Let_def)
  then show ?thesis
    by (simp only: subarray_after)
qed

lemma subarray_short_length:
  assumes "int (length buf) < p + w" and "0 < w"
  shows "int (length (Buffer_subarray buf p (Some (p + w)))) < w"
proof -
  let ?n = "int (length buf)"
  have "?n - adjustOffset p ?n < w"
    using assms by (simp add: adjustOffset_def)
  moreover have "0 \<le> adjustOffset p ?n \<and> adjustOffset p ?n \<le> ?n"
    by (rule adjustOffset_range) simp
  ultimately show ?thesis
    by (simp add: subarray_short [OF assms(1)]) linarith
qed

lemma read_short:
  "length buf < 1 \<Longrightarrow> Buffer_readUint8 buf = Inl ERR_BUFFER_OUT_OF_BOUNDS"
  "length buf < 2 \<Longrightarrow> Buffer_readUint16LE buf = Inl ERR_BUFFER_OUT_OF_BOUNDS"
  "length buf < 2 \<Longrightarrow> Buffer_readUint16BE buf = Inl ERR_BUFFER_OUT_OF_BOUNDS"
  "length buf < 4 \<Longrightarrow> Buffer_readUint32LE buf = Inl ERR_BUFFER_OUT_OF_BOUNDS"
  "length buf < 4 \<Longrightarrow> Buffer_readUint32BE buf = Inl ERR_BUFFER_OUT_OF_BOUNDS"
  "length buf < 4 \<Longrightarrow> Buffer_readInt32LE buf = Inl ERR_BUFFER_OUT_OF_BOUNDS"
  by (auto simp add: Buffer_readUint8_def Buffer_readUint16LE_def Buffer_readUint16BE_def
      Buffer_readUint32LE_def Buffer_readUint32BE_def Buffer_readInt32LE_def index_def
      boundsError_def)

lemma readBytes_short:
  assumes "StreamIn_size s < StreamIn.pos s + w" and "0 < w"
  shows "int (length (fst (StreamIn_readBytes w s))) < w"
  using assms subarray_short_length [of "StreamIn.buffer s" "StreamIn.pos s" w]
  by (simp add: StreamIn_readBytes_def StreamIn_size_def Let_def)

lemma readBytes_snd: "snd (StreamIn_readBytes w s) = s\<lparr>StreamIn.pos := StreamIn.pos s + w\<rparr>"
  by (simp add: StreamIn_readBytes_def Let_def)

lemma readX_split:
  "StreamIn_readUint8 s = (Buffer_readUint8 (fst (StreamIn_readBytes 1 s)), s\<lparr>StreamIn.pos := StreamIn.pos s + 1\<rparr>)"
  "StreamIn_readUint16LE s = (Buffer_readUint16LE (fst (StreamIn_readBytes 2 s)), s\<lparr>StreamIn.pos := StreamIn.pos s + 2\<rparr>)"
  "StreamIn_readUint16BE s = (Buffer_readUint16BE (fst (StreamIn_readBytes 2 s)), s\<lparr>StreamIn.pos := StreamIn.pos s + 2\<rparr>)"
  "StreamIn_readUint32LE s = (Buffer_readUint32LE (fst (StreamIn_readBytes 4 s)), s\<lparr>StreamIn.pos := StreamIn.pos s + 4\<rparr>)"
  "StreamIn_readUint32BE s = (Buffer_readUint32BE (fst (StreamIn_readBytes 4 s)), s\<lparr>StreamIn.pos := StreamIn.pos s + 4\<rparr>)"
  "StreamIn_readInt32LE s = (Buffer_readInt32LE (fst (StreamIn_readBytes 4 s)), s\<lparr>StreamIn.pos := StreamIn.pos s + 4\<rparr>)"
  by (simp_all add: StreamIn_readUint8_def StreamIn_readUint16LE_def StreamIn_readUint16BE_def
      StreamIn_readUint32LE_def StreamIn_readUint32BE_def StreamIn_readInt32LE_def
      StreamIn_readBytes_def Let_def)

section \<open>The bytes a fresh writer holds\<close>

lemma writeBytes_new:
  "StreamOut_writeBytes bs StreamOut_new = \<lparr>StreamOut.buffer = bs, StreamOut.pos = int (length bs)\<rparr>"
  by (simp add: StreamOut_writeBytes_def StreamOut_new_def Buffer_subarray_def
      adjustOffset_def Buffer_concat_def Let_def)

lemma uint_ToUint8_low: "uint (ToUint8 (Fin (of_int v))) = v mod 4294967296 mod 256"
proof -
  have "v mod 4294967296 mod 256 = v mod 256"
    by (rule mod_mod_cancel) simp
  then show ?thesis
    by (simp only: uint_ToUint8)
qed

lemma written_byte1:
  "uint (ucast (drop_bit 8 (ToUint32 (Fin (of_int v)))) :: byte)
     = v mod 4294967296 div 256 mod 256"
  by (simp only: uint_byte1 uint_ToUint32)

lemma written_byte2:
  "uint (ucast (drop_bit 8 (drop_bit 8 (ToUint32 (Fin (of_int v))))) :: byte)
     = v mod 4294967296 div 65536 mod 256"
  by (simp only: uint_byte2 uint_ToUint32)

lemma written_byte3:
  "uint (ucast (drop_bit 8 (drop_bit 8 (drop_bit 8 (ToUint32 (Fin (of_int v)))))) :: byte)
     = v mod 4294967296 div 16777216 mod 256"
  by (simp only: uint_byte3 uint_ToUint32)

lemma written_bytes_16:
  "map uint [ToUint8 (Fin (of_int v)), ucast (drop_bit 8 (ToUint32 (Fin (of_int v))))]
     = [v mod 4294967296 mod 256, v mod 4294967296 div 256 mod 256]"
  "map uint [ucast (drop_bit 8 (ToUint32 (Fin (of_int v)))), ToUint8 (Fin (of_int v))]
     = [v mod 4294967296 div 256 mod 256, v mod 4294967296 mod 256]"
  by (simp_all only: list.map uint_ToUint8_low written_byte1)

lemma written_bytes_32:
  "map uint [ToUint8 (Fin (of_int v)), ucast (drop_bit 8 (ToUint32 (Fin (of_int v)))),
             ucast (drop_bit 8 (drop_bit 8 (ToUint32 (Fin (of_int v))))),
             ucast (drop_bit 8 (drop_bit 8 (drop_bit 8 (ToUint32 (Fin (of_int v))))))]
     = [v mod 4294967296 mod 256, v mod 4294967296 div 256 mod 256,
        v mod 4294967296 div 65536 mod 256, v mod 4294967296 div 16777216 mod 256]"
  "map uint [ucast (drop_bit 8 (drop_bit 8 (drop_bit 8 (ToUint32 (Fin (of_int v)))))),
             ucast (drop_bit 8 (drop_bit 8 (ToUint32 (Fin (of_int v))))),
             ucast (drop_bit 8 (ToUint32 (Fin (of_int v)))), ToUint8 (Fin (of_int v))]
     = [v mod 4294967296 div 16777216 mod 256, v mod 4294967296 div 65536 mod 256,
        v mod 4294967296 div 256 mod 256, v mod 4294967296 mod 256]"
  by (simp_all only: list.map uint_ToUint8_low written_byte1 written_byte2 written_byte3)

lemma bytes_of_write:
  "StreamOut_bytes (snd (Inr (), StreamOut_writeBytes bs StreamOut_new)) = bs"
  by (simp add: writeBytes_new StreamOut_bytes_def)

section \<open>The claims\<close>

text \<open>
  C1. Round trip. Let a writer's seek pointer lie inside its buffer
  (\<open>0 \<le> pos \<le> size()\<close>). For each of the six formats and every integer \<open>v\<close> in the
  range of the format, \<open>writeX(v)\<close> succeeds, and a reader over the writer's \<open>bytes()\<close>,
  moved to the position the writer had before the write, returns \<open>v\<close> from the matching
  \<open>readX\<close>.
\<close>

theorem write_read_roundtrip:
  assumes "0 \<le> StreamOut.pos w" and "StreamOut.pos w \<le> StreamOut_size w"
  shows
    "(0 \<le> v \<and> v \<le> 255 \<longrightarrow>
        write_then_read StreamOut_writeUint8 StreamIn_readUint8 (Fin (of_int v)) w = Inr v) \<and>
     (0 \<le> v \<and> v \<le> 65535 \<longrightarrow>
        write_then_read StreamOut_writeUint16LE StreamIn_readUint16LE (Fin (of_int v)) w = Inr v) \<and>
     (0 \<le> v \<and> v \<le> 65535 \<longrightarrow>
        write_then_read StreamOut_writeUint16BE StreamIn_readUint16BE (Fin (of_int v)) w = Inr v) \<and>
     (0 \<le> v \<and> v \<le> 4294967295 \<longrightarrow>
        write_then_read StreamOut_writeUint32LE StreamIn_readUint32LE (Fin (of_int v)) w = Inr v) \<and>
     (0 \<le> v \<and> v \<le> 4294967295 \<longrightarrow>
        write_then_read StreamOut_writeUint32BE StreamIn_readUint32BE (Fin (of_int v)) w = Inr v) \<and>
     (- 2147483648 \<le> v \<and> v \<le> 2147483647 \<longrightarrow>
        write_then_read StreamOut_writeInt32LE StreamIn_readInt32LE (Fin (of_int v)) w = Inr v)"
  using roundtrip_Uint8 [OF assms] roundtrip_Uint16LE [OF assms] roundtrip_Uint16BE [OF assms]
    roundtrip_Uint32LE [OF assms] roundtrip_Uint32BE [OF assms] roundtrip_Int32LE [OF assms]
  by blast

theorem write_read_roundtrip_witness:
  "write_then_read StreamOut_writeUint8 StreamIn_readUint8 (Fin 200)
     \<lparr>StreamOut.buffer = [1, 2, 3], StreamOut.pos = 1\<rparr> = Inr 200 \<and>
   write_then_read StreamOut_writeUint16LE StreamIn_readUint16LE (Fin 200)
     \<lparr>StreamOut.buffer = [1, 2, 3], StreamOut.pos = 1\<rparr> = Inr 200 \<and>
   write_then_read StreamOut_writeUint16BE StreamIn_readUint16BE (Fin 200)
     \<lparr>StreamOut.buffer = [1, 2, 3], StreamOut.pos = 1\<rparr> = Inr 200 \<and>
   write_then_read StreamOut_writeUint32LE StreamIn_readUint32LE (Fin 200)
     \<lparr>StreamOut.buffer = [1, 2, 3], StreamOut.pos = 1\<rparr> = Inr 200 \<and>
   write_then_read StreamOut_writeUint32BE StreamIn_readUint32BE (Fin 200)
     \<lparr>StreamOut.buffer = [1, 2, 3], StreamOut.pos = 1\<rparr> = Inr 200 \<and>
   write_then_read StreamOut_writeInt32LE StreamIn_readInt32LE (Fin (- 5))
     \<lparr>StreamOut.buffer = [1, 2, 3], StreamOut.pos = 1\<rparr> = Inr (- 5)"
  using write_read_roundtrip [of "\<lparr>StreamOut.buffer = [1, 2, 3], StreamOut.pos = 1\<rparr>" 200]
    write_read_roundtrip [of "\<lparr>StreamOut.buffer = [1, 2, 3], StreamOut.pos = 1\<rparr>" "- 5"]
  by (simp add: StreamOut_size_def)

text \<open>
  C2. Insertion. For a writer whose seek pointer lies inside its buffer
  (\<open>0 \<le> pos \<le> size()\<close>) and any bytes \<open>data\<close>, \<open>writeBytes(data)\<close> makes the buffer
  \<open>buffer[0:pos] ++ data ++ buffer[pos:]\<close>: every byte that was at an index \<open>i \<ge> pos\<close> is
  afterwards at index \<open>i + data.length\<close>, every byte before \<open>pos\<close> stays where it was,
  and \<open>pos\<close> grows by \<open>data.length\<close>.
\<close>

theorem writeBytes_inserts:
  assumes "0 \<le> StreamOut.pos s" and "StreamOut.pos s \<le> StreamOut_size s"
  shows
    "StreamOut.buffer (StreamOut_writeBytes data s) =
       take (nat (StreamOut.pos s)) (StreamOut.buffer s) @ data
       @ drop (nat (StreamOut.pos s)) (StreamOut.buffer s) \<and>
     (\<forall>i. nat (StreamOut.pos s) \<le> i \<and> i < length (StreamOut.buffer s) \<longrightarrow>
        StreamOut.buffer (StreamOut_writeBytes data s) ! (i + length data)
          = StreamOut.buffer s ! i) \<and>
     (\<forall>i. i < nat (StreamOut.pos s) \<longrightarrow>
        StreamOut.buffer (StreamOut_writeBytes data s) ! i = StreamOut.buffer s ! i) \<and>
     StreamOut.pos (StreamOut_writeBytes data s) = StreamOut.pos s + int (length data)"
proof -
  let ?k = "nat (StreamOut.pos s)" and ?b = "StreamOut.buffer s"
  have k: "?k \<le> length ?b"
    using assms by (simp add: StreamOut_size_def)
  have buf: "StreamOut.buffer (StreamOut_writeBytes data s) = take ?k ?b @ data @ drop ?k ?b"
    by (rule writeBytes_inside [OF assms])
  have tail: "(take ?k ?b @ data @ drop ?k ?b) ! (i + length data) = ?b ! i"
    if "?k \<le> i" "i < length ?b" for i
  proof -
    have e: "i + length data = length (take ?k ?b) + (length data + (i - ?k))"
      using that k by simp
    have "(take ?k ?b @ data @ drop ?k ?b) ! (i + length data)
            = (data @ drop ?k ?b) ! (length data + (i - ?k))"
      by (simp only: e nth_append_length_plus)
    also have "\<dots> = drop ?k ?b ! (i - ?k)"
      by (simp only: nth_append_length_plus)
    also have "\<dots> = ?b ! i"
      using that k by simp
    finally show ?thesis .
  qed
  have front: "(take ?k ?b @ data @ drop ?k ?b) ! i = ?b ! i" if "i < ?k" for i
    using that k by (simp add: nth_append)
  show ?thesis
    using tail front by (simp add: buf writeBytes_pos)
qed

theorem writeBytes_inserts_witness:
  "StreamOut_writeBytes [9, 8] \<lparr>StreamOut.buffer = [1, 2, 3], StreamOut.pos = 1\<rparr>
     = \<lparr>StreamOut.buffer = [1, 9, 8, 2, 3], StreamOut.pos = 3\<rparr>"
  using writeBytes_inserts [of "\<lparr>StreamOut.buffer = [1, 2, 3], StreamOut.pos = 1\<rparr>" "[9, 8]"]
  by (simp add: StreamOut_size_def)

text \<open>
  C3, as the code has it. When \<open>pos + length\<close> exceeds \<open>size()\<close>, \<open>readBytes(length)\<close>
  does not fail and returns the bytes from the start index that \<open>subarray\<close> derives from
  \<open>pos\<close> to the end of the buffer; for \<open>pos \<ge> 0\<close> these are the bytes remaining from
  \<open>pos\<close>. A fixed-width read of width \<open>w\<close> with \<open>pos + w > size()\<close> does not return
  a number: the view is shorter than \<open>w\<close> bytes and the buffer's read throws the range
  error \<open>ERR_BUFFER_OUT_OF_BOUNDS\<close>.
\<close>

theorem short_read:
  "(StreamIn_size s < StreamIn.pos s + len \<longrightarrow>
      fst (StreamIn_readBytes len s)
        = drop (nat (adjustOffset (StreamIn.pos s) (StreamIn_size s))) (StreamIn.buffer s)) \<and>
   (0 \<le> StreamIn.pos s \<and> StreamIn_size s < StreamIn.pos s + len \<longrightarrow>
      fst (StreamIn_readBytes len s) = drop (nat (StreamIn.pos s)) (StreamIn.buffer s)) \<and>
   (StreamIn_size s < StreamIn.pos s + 1 \<longrightarrow>
      fst (StreamIn_readUint8 s) = Inl ERR_BUFFER_OUT_OF_BOUNDS) \<and>
   (StreamIn_size s < StreamIn.pos s + 2 \<longrightarrow>
      fst (StreamIn_readUint16LE s) = Inl ERR_BUFFER_OUT_OF_BOUNDS \<and>
      fst (StreamIn_readUint16BE s) = Inl ERR_BUFFER_OUT_OF_BOUNDS) \<and>
   (StreamIn_size s < StreamIn.pos s + 4 \<longrightarrow>
      fst (StreamIn_readUint32LE s) = Inl ERR_BUFFER_OUT_OF_BOUNDS \<and>
      fst (StreamIn_readUint32BE s) = Inl ERR_BUFFER_OUT_OF_BOUNDS \<and>
      fst (StreamIn_readInt32LE s) = Inl ERR_BUFFER_OUT_OF_BOUNDS)"
proof -
  have view: "fst (StreamIn_readBytes len s)
        = drop (nat (adjustOffset (StreamIn.pos s) (StreamIn_size s))) (StreamIn.buffer s)"
    if "StreamIn_size s < StreamIn.pos s + len"
    using that subarray_short [of "StreamIn.buffer s" "StreamIn.pos s" len]
    by (simp add: StreamIn_readBytes_def StreamIn_size_def Let_def)
  have view0: "fst (StreamIn_readBytes len s) = drop (nat (StreamIn.pos s)) (StreamIn.buffer s)"
    if "0 \<le> StreamIn.pos s" "StreamIn_size s < StreamIn.pos s + len"
  proof (cases "StreamIn.pos s \<le> StreamIn_size s")
    case True
    then show ?thesis
      using that view by (simp add: adjustOffset_inside)
  next
    case False
    then have "adjustOffset (StreamIn.pos s) (StreamIn_size s) = StreamIn_size s"
      by (intro adjustOffset_beyond) (simp_all add: StreamIn_size_def)
    then show ?thesis
      using that False view by (simp add: StreamIn_size_def)
  qed
  have l1: "length (fst (StreamIn_readBytes 1 s)) < 1" if "StreamIn_size s < StreamIn.pos s + 1"
    using readBytes_short [OF that] by simp
  have r1: "fst (StreamIn_readUint8 s) = Inl ERR_BUFFER_OUT_OF_BOUNDS"
    if "StreamIn_size s < StreamIn.pos s + 1"
    by (simp only: readX_split fst_conv read_short(1) [OF l1 [OF that]])
  have l2: "length (fst (StreamIn_readBytes 2 s)) < 2" if "StreamIn_size s < StreamIn.pos s + 2"
    using readBytes_short [OF that] by simp
  have r2: "fst (StreamIn_readUint16LE s) = Inl ERR_BUFFER_OUT_OF_BOUNDS"
     "fst (StreamIn_readUint16BE s) = Inl ERR_BUFFER_OUT_OF_BOUNDS"
    if "StreamIn_size s < StreamIn.pos s + 2"
    by (simp_all only: readX_split fst_conv read_short(2,3) [OF l2 [OF that]])
  have l4: "length (fst (StreamIn_readBytes 4 s)) < 4" if "StreamIn_size s < StreamIn.pos s + 4"
    using readBytes_short [OF that] by simp
  have r4: "fst (StreamIn_readUint32LE s) = Inl ERR_BUFFER_OUT_OF_BOUNDS"
     "fst (StreamIn_readUint32BE s) = Inl ERR_BUFFER_OUT_OF_BOUNDS"
     "fst (StreamIn_readInt32LE s) = Inl ERR_BUFFER_OUT_OF_BOUNDS"
    if "StreamIn_size s < StreamIn.pos s + 4"
    by (simp_all only: readX_split fst_conv read_short(4,5,6) [OF l4 [OF that]])
  show ?thesis
    using view view0 r1 r2 r4 by blast
qed

theorem short_read_witness:
  "fst (StreamIn_readBytes 4 \<lparr>StreamIn.buffer = [1, 2, 3], StreamIn.pos = 1\<rparr>) = [2, 3] \<and>
   fst (StreamIn_readUint32LE \<lparr>StreamIn.buffer = [1, 2, 3], StreamIn.pos = 1\<rparr>)
     = Inl ERR_BUFFER_OUT_OF_BOUNDS \<and>
   fst (StreamIn_readUint16BE \<lparr>StreamIn.buffer = [1, 2, 3], StreamIn.pos = 2\<rparr>)
     = Inl ERR_BUFFER_OUT_OF_BOUNDS \<and>
   fst (StreamIn_readUint8 \<lparr>StreamIn.buffer = [1, 2, 3], StreamIn.pos = 3\<rparr>)
     = Inl ERR_BUFFER_OUT_OF_BOUNDS"
  using short_read [of "\<lparr>StreamIn.buffer = [1, 2, 3], StreamIn.pos = 1\<rparr>" 4]
    short_read [of "\<lparr>StreamIn.buffer = [1, 2, 3], StreamIn.pos = 2\<rparr>" 2]
    short_read [of "\<lparr>StreamIn.buffer = [1, 2, 3], StreamIn.pos = 3\<rparr>" 1]
  by (simp add: StreamIn_size_def adjustOffset_def)

text \<open>
  C3 as first stated expects a number from a fixed-width read of a truncated view. Over
  the one-byte buffer \<open>[0x14]\<close>, \<open>readBytes(2)\<close> returns the one byte, and
  \<open>readUint16LE()\<close> throws.
\<close>

theorem short_read_counterexample:
  "StreamIn_size (StreamIn_new [0x14]) < StreamIn.pos (StreamIn_new [0x14]) + 2 \<and>
   fst (StreamIn_readBytes 2 (StreamIn_new [0x14])) = [0x14] \<and>
   fst (StreamIn_readUint16LE (StreamIn_new [0x14])) = Inl ERR_BUFFER_OUT_OF_BOUNDS"
  by (simp add: StreamIn_new_def StreamIn_size_def StreamIn_readUint16LE_def
      StreamIn_readBytes_def Buffer_subarray_def adjustOffset_def Buffer_readUint16LE_def
      index_def boundsError_def Let_def)

text \<open>
  C4. Cursor advancement, for seek pointers and steps that are safe integers with a
  safe sum (where the addition of the code is exact). \<open>readBytes(n)\<close> moves the reader's
  \<open>pos\<close> by \<open>n\<close> and each \<open>readX\<close> moves it by its width (1, 2 or 4), whether the read
  returns a number or throws on a short read. \<open>writeBytes(data)\<close> moves the writer's
  \<open>pos\<close> by \<open>data.length\<close>, and each \<open>writeX\<close> of a value that passes the range check
  succeeds and moves \<open>pos\<close> by its width.
\<close>

theorem cursor_advancement:
  "(Number_isSafeInteger (StreamIn.pos r) \<and> Number_isSafeInteger n \<and>
    Number_isSafeInteger (StreamIn.pos r + n) \<longrightarrow>
      StreamIn.pos (snd (StreamIn_readBytes n r)) = StreamIn.pos r + n) \<and>
   (Number_isSafeInteger (StreamIn.pos r) \<and> Number_isSafeInteger (StreamIn.pos r + 1) \<longrightarrow>
      StreamIn.pos (snd (StreamIn_readUint8 r)) = StreamIn.pos r + 1) \<and>
   (Number_isSafeInteger (StreamIn.pos r) \<and> Number_isSafeInteger (StreamIn.pos r + 2) \<longrightarrow>
      StreamIn.pos (snd (StreamIn_readUint16LE r)) = StreamIn.pos r + 2 \<and>
      StreamIn.pos (snd (StreamIn_readUint16BE r)) = StreamIn.pos r + 2) \<and>
   (Number_isSafeInteger (StreamIn.pos r) \<and> Number_isSafeInteger (StreamIn.pos r + 4) \<longrightarrow>
      StreamIn.pos (snd (StreamIn_readUint32LE r)) = StreamIn.pos r + 4 \<and>
      StreamIn.pos (snd (StreamIn_readUint32BE r)) = StreamIn.pos r + 4 \<and>
      StreamIn.pos (snd (StreamIn_readInt32LE r)) = StreamIn.pos r + 4) \<and>
   (Number_isSafeInteger (StreamOut.pos w) \<and> Number_isSafeInteger (int (length data)) \<and>
    Number_isSafeInteger (StreamOut.pos w + int (length data)) \<longrightarrow>
      StreamOut.pos (StreamOut_writeBytes data w) = StreamOut.pos w + int (length data)) \<and>
   (Number_isSafeInteger (StreamOut.pos w) \<and> Number_isSafeInteger (StreamOut.pos w + 1) \<and>
    \<not> number_gt v 255 \<and> \<not> number_lt v 0 \<longrightarrow>
      fst (StreamOut_writeUint8 v w) = Inr () \<and>
      StreamOut.pos (snd (StreamOut_writeUint8 v w)) = StreamOut.pos w + 1) \<and>
   (Number_isSafeInteger (StreamOut.pos w) \<and> Number_isSafeInteger (StreamOut.pos w + 2) \<and>
    \<not> number_gt v 65535 \<and> \<not> number_lt v 0 \<longrightarrow>
      fst (StreamOut_writeUint16LE v w) = Inr () \<and>
      StreamOut.pos (snd (StreamOut_writeUint16LE v w)) = StreamOut.pos w + 2 \<and>
      fst (StreamOut_writeUint16BE v w) = Inr () \<and>
      StreamOut.pos (snd (StreamOut_writeUint16BE v w)) = StreamOut.pos w + 2) \<and>
   (Number_isSafeInteger (StreamOut.pos w) \<and> Number_isSafeInteger (StreamOut.pos w + 4) \<and>
    \<not> number_gt v 4294967295 \<and> \<not> number_lt v 0 \<longrightarrow>
      fst (StreamOut_writeUint32LE v w) = Inr () \<and>
      StreamOut.pos (snd (StreamOut_writeUint32LE v w)) = StreamOut.pos w + 4 \<and>
      fst (StreamOut_writeUint32BE v w) = Inr () \<and>
      StreamOut.pos (snd (StreamOut_writeUint32BE v w)) = StreamOut.pos w + 4) \<and>
   (Number_isSafeInteger (StreamOut.pos w) \<and> Number_isSafeInteger (StreamOut.pos w + 4) \<and>
    \<not> number_gt v 2147483647 \<and> \<not> number_lt v (- 2147483648) \<longrightarrow>
      fst (StreamOut_writeInt32LE v w) = Inr () \<and>
      StreamOut.pos (snd (StreamOut_writeInt32LE v w)) = StreamOut.pos w + 4)"
  by (simp add: readBytes_snd readX_split writeBytes_pos StreamOut_writeUint8_eq
      StreamOut_writeUint16LE_eq StreamOut_writeUint16BE_eq StreamOut_writeUint32LE_eq
      StreamOut_writeUint32BE_eq StreamOut_writeInt32LE_eq)

theorem cursor_advancement_witness:
  "StreamIn.pos (snd (StreamIn_readBytes 2 (StreamIn_new [7]))) = 2 \<and>
   StreamIn.pos (snd (StreamIn_readUint8 (StreamIn_new [7]))) = 1 \<and>
   StreamIn.pos (snd (StreamIn_readUint16LE (StreamIn_new [7]))) = 2 \<and>
   StreamIn.pos (snd (StreamIn_readUint32LE (StreamIn_new [7]))) = 4 \<and>
   fst (StreamIn_readUint32LE (StreamIn_new [7])) = Inl ERR_BUFFER_OUT_OF_BOUNDS \<and>
   StreamOut.pos (StreamOut_writeBytes [5, 6, 7] StreamOut_new) = 3 \<and>
   StreamOut_writeUint8 (Fin 20) StreamOut_new
     = (Inr (), \<lparr>StreamOut.buffer = [20], StreamOut.pos = 1\<rparr>) \<and>
   StreamOut.pos (snd (StreamOut_writeUint16LE (Fin 4000) StreamOut_new)) = 2 \<and>
   StreamOut.pos (snd (StreamOut_writeUint16BE (Fin 4000) StreamOut_new)) = 2 \<and>
   StreamOut.pos (snd (StreamOut_writeUint32LE (Fin 4000) StreamOut_new)) = 4 \<and>
   StreamOut.pos (snd (StreamOut_writeUint32BE (Fin 4000) StreamOut_new)) = 4 \<and>
   StreamOut.pos (snd (StreamOut_writeInt32LE (Fin (- 4000)) StreamOut_new)) = 4"
  using cursor_advancement [of "StreamIn_new [7]" 2 StreamOut_new "[5, 6, 7]" "Fin 20"]
    cursor_advancement [of "StreamIn_new [7]" 2 StreamOut_new "[5, 6, 7]" "Fin 4000"]
    cursor_advancement [of "StreamIn_new [7]" 2 StreamOut_new "[5, 6, 7]" "Fin (- 4000)"]
  by (simp add: Number_isSafeInteger_def number_gt_def number_lt_def StreamIn_new_def
      StreamOut_new_def readX_split read_short StreamIn_readBytes_def Buffer_subarray_def
      adjustOffset_def StreamOut_writeUint8_eq StreamOut_writeBytes_def Buffer_concat_def
      ToUint8_def truncate_number_def Let_def)

text \<open>
  C5. \<open>hasData()\<close> is true exactly when \<open>pos < size()\<close>. It is a function of the
  reader's state alone and returns no new state: the method assigns to no field. It is
  false exactly when the seek pointer is at or beyond the end; for a pointer that never
  passed the end, exactly when it is at the end. After \<open>readBytes(n)\<close> it is false
  exactly when \<open>pos + n\<close> reached \<open>size()\<close>.
\<close>

theorem hasData_iff:
  "(StreamIn_hasData s \<longleftrightarrow> StreamIn.pos s < StreamIn_size s) \<and>
   (\<not> StreamIn_hasData s \<longleftrightarrow> StreamIn_size s \<le> StreamIn.pos s) \<and>
   (StreamIn.pos s \<le> StreamIn_size s \<longrightarrow>
      (\<not> StreamIn_hasData s \<longleftrightarrow> StreamIn.pos s = StreamIn_size s)) \<and>
   (\<not> StreamIn_hasData (snd (StreamIn_readBytes n s))
      \<longleftrightarrow> StreamIn_size s \<le> StreamIn.pos s + n)"
  by (auto simp add: StreamIn_hasData_def StreamIn_size_def readBytes_snd)

theorem hasData_iff_witness:
  "StreamIn_hasData (StreamIn_new [0x14, 0xa0, 0x0f]) \<and>
   StreamIn_hasData (snd (StreamIn_readBytes 2 (StreamIn_new [0x14, 0xa0, 0x0f]))) \<and>
   \<not> StreamIn_hasData (snd (StreamIn_readBytes 3 (StreamIn_new [0x14, 0xa0, 0x0f])))"
  using hasData_iff [of "StreamIn_new [0x14, 0xa0, 0x0f]" 2]
    hasData_iff [of "StreamIn_new [0x14, 0xa0, 0x0f]" 3]
  by (simp add: StreamIn_new_def StreamIn_size_def)

text \<open>
  C6. Byte order. On a fresh writer \<open>writeUint16LE(0x0fa0)\<close> leaves the bytes
  \<open>[0xa0, 0x0f]\<close> and \<open>writeUint16BE(0x0fa0)\<close> the bytes \<open>[0x0f, 0xa0]\<close>. In general the
  little-endian writes store the least significant byte first and the big-endian writes
  the most significant byte first; the signed write stores the bytes of the value modulo
  \<open>2 ^ 32\<close>.
\<close>

theorem byte_order:
  "StreamOut_writeUint16LE (Fin 0x0fa0) StreamOut_new
     = (Inr (), \<lparr>StreamOut.buffer = [0xa0, 0x0f], StreamOut.pos = 2\<rparr>) \<and>
   StreamOut_writeUint16BE (Fin 0x0fa0) StreamOut_new
     = (Inr (), \<lparr>StreamOut.buffer = [0x0f, 0xa0], StreamOut.pos = 2\<rparr>) \<and>
   (0 \<le> v \<and> v \<le> 65535 \<longrightarrow>
      map uint (StreamOut_bytes (snd (StreamOut_writeUint16LE (Fin (of_int v)) StreamOut_new)))
        = [v mod 256, v div 256 mod 256] \<and>
      map uint (StreamOut_bytes (snd (StreamOut_writeUint16BE (Fin (of_int v)) StreamOut_new)))
        = [v div 256 mod 256, v mod 256]) \<and>
   (0 \<le> v \<and> v \<le> 4294967295 \<longrightarrow>
      map uint (StreamOut_bytes (snd (StreamOut_writeUint32LE (Fin (of_int v)) StreamOut_new)))
        = [v mod 256, v div 256 mod 256, v div 65536 mod 256, v div 16777216 mod 256] \<and>
      map uint (StreamOut_bytes (snd (StreamOut_writeUint32BE (Fin (of_int v)) StreamOut_new)))
        = [v div 16777216 mod 256, v div 65536 mod 256, v div 256 mod 256, v mod 256]) \<and>
   (- 2147483648 \<le> v \<and> v \<le> 2147483647 \<longrightarrow>
      map uint (StreamOut_bytes (snd (StreamOut_writeInt32LE (Fin (of_int v)) StreamOut_new)))
        = [v mod 4294967296 mod 256, v mod 4294967296 div 256 mod 256,
           v mod 4294967296 div 65536 mod 256, v mod 4294967296 div 16777216 mod 256])"
proof -
  have t: "truncate_number (Fin 4000) = 4000"
    using truncate_number_of_int [of 4000] by simp
  have lo: "ToUint8 (Fin 4000) = 0xa0"
    by (simp add: ToUint8_def t)
  have hi: "(ucast (drop_bit 8 (ToUint32 (Fin 4000))) :: byte) = 0x0f"
    by (simp add: ToUint32_def t)
  have r: "\<not> number_gt (Fin 4000) 65535" "\<not> number_lt (Fin 4000) 0"
    by (simp_all add: number_gt_def number_lt_def)
  have c1: "StreamOut_writeUint16LE (Fin 0x0fa0) StreamOut_new
     = (Inr (), \<lparr>StreamOut.buffer = [0xa0, 0x0f], StreamOut.pos = 2\<rparr>)"
    by (simp add: StreamOut_writeUint16LE_eq r writeBytes_new lo hi)
  have c2: "StreamOut_writeUint16BE (Fin 0x0fa0) StreamOut_new
     = (Inr (), \<lparr>StreamOut.buffer = [0x0f, 0xa0], StreamOut.pos = 2\<rparr>)"
    by (simp add: StreamOut_writeUint16BE_eq r writeBytes_new lo hi)
  have g16: "map uint (StreamOut_bytes (snd (StreamOut_writeUint16LE (Fin (of_int v)) StreamOut_new)))
        = [v mod 256, v div 256 mod 256] \<and>
      map uint (StreamOut_bytes (snd (StreamOut_writeUint16BE (Fin (of_int v)) StreamOut_new)))
        = [v div 256 mod 256, v mod 256]"
    if "0 \<le> v" "v \<le> 65535"
  proof -
    have mm: "v mod 4294967296 = v"
      using that by simp
    have w0: "StreamOut_writeUint16LE (Fin (of_int v)) StreamOut_new
            = (Inr (), StreamOut_writeBytes [ToUint8 (Fin (of_int v)), ucast (drop_bit 8 (ToUint32 (Fin (of_int v))))] StreamOut_new)"
      using that by (simp add: StreamOut_writeUint16LE_eq number_gt_of_int number_lt_of_int)
    have r0: "map uint (StreamOut_bytes (snd (StreamOut_writeUint16LE (Fin (of_int v)) StreamOut_new)))
        = [v mod 256, v div 256 mod 256]"
      by (simp only: w0 bytes_of_write written_bytes_16(1) mm)
    have w1: "StreamOut_writeUint16BE (Fin (of_int v)) StreamOut_new
            = (Inr (), StreamOut_writeBytes [ucast (drop_bit 8 (ToUint32 (Fin (of_int v)))), ToUint8 (Fin (of_int v))] StreamOut_new)"
      using that by (simp add: StreamOut_writeUint16BE_eq number_gt_of_int number_lt_of_int)
    have r1: "map uint (StreamOut_bytes (snd (StreamOut_writeUint16BE (Fin (of_int v)) StreamOut_new)))
        = [v div 256 mod 256, v mod 256]"
      by (simp only: w1 bytes_of_write written_bytes_16(2) mm)
    show ?thesis
      using r0 r1 by blast
  qed
  have g32: "map uint (StreamOut_bytes (snd (StreamOut_writeUint32LE (Fin (of_int v)) StreamOut_new)))
        = [v mod 256, v div 256 mod 256, v div 65536 mod 256, v div 16777216 mod 256] \<and>
      map uint (StreamOut_bytes (snd (StreamOut_writeUint32BE (Fin (of_int v)) StreamOut_new)))
        = [v div 16777216 mod 256, v div 65536 mod 256, v div 256 mod 256, v mod 256]"
    if "0 \<le> v" "v \<le> 4294967295"
  proof -
    have mm: "v mod 4294967296 = v"
      using that by simp
    have w0: "StreamOut_writeUint32LE (Fin (of_int v)) StreamOut_new
            = (Inr (), StreamOut_writeBytes [ToUint8 (Fin (of_int v)), ucast (drop_bit 8 (ToUint32 (Fin (of_int v)))),
               ucast (drop_bit 8 (drop_bit 8 (ToUint32 (Fin (of_int v))))),
               ucast (drop_bit 8 (drop_bit 8 (drop_bit 8 (ToUint32 (Fin (of_int v))))))] StreamOut_new)"
      using that by (simp add: StreamOut_writeUint32LE_eq number_gt_of_int number_lt_of_int)
    have r0: "map uint (StreamOut_bytes (snd (StreamOut_writeUint32LE (Fin (of_int v)) StreamOut_new)))
        = [v mod 256, v div 256 mod 256, v div 65536 mod 256, v div 16777216 mod 256]"
      by (simp only: w0 bytes_of_write written_bytes_32(1) mm)
    have w1: "StreamOut_writeUint32BE (Fin (of_int v)) StreamOut_new
            = (Inr (), StreamOut_writeBytes [ucast (drop_bit 8 (drop_bit 8 (drop_bit 8 (ToUint32 (Fin (of_int v)))))),
               ucast (drop_bit 8 (drop_bit 8 (ToUint32 (Fin (of_int v))))),
               ucast (drop_bit 8 (ToUint32 (Fin (of_int v)))), ToUint8 (Fin (of_int v))] StreamOut_new)"
      using that by (simp add: StreamOut_writeUint32BE_eq number_gt_of_int number_lt_of_int)
    have r1: "map uint (StreamOut_bytes (snd (StreamOut_writeUint32BE (Fin (of_int v)) StreamOut_new)))
        = [v div 16777216 mod 256, v div 65536 mod 256, v div 256 mod 256, v mod 256]"
      by (simp only: w1 bytes_of_write written_bytes_32(2) mm)
    show ?thesis
      using r0 r1 by blast
  qed
  have gi: "map uint (StreamOut_bytes (snd (StreamOut_writeInt32LE (Fin (of_int v)) StreamOut_new)))
        = [v mod 4294967296 mod 256, v mod 4294967296 div 256 mod 256,
           v mod 4294967296 div 65536 mod 256, v mod 4294967296 div 16777216 mod 256]"
    if "- 2147483648 \<le> v" "v \<le> 2147483647"
  proof -
    have w0: "StreamOut_writeInt32LE (Fin (of_int v)) StreamOut_new
            = (Inr (), StreamOut_writeBytes [ToUint8 (Fin (of_int v)), ucast (drop_bit 8 (ToUint32 (Fin (of_int v)))),
               ucast (drop_bit 8 (drop_bit 8 (ToUint32 (Fin (of_int v))))),
               ucast (drop_bit 8 (drop_bit 8 (drop_bit 8 (ToUint32 (Fin (of_int v))))))] StreamOut_new)"
      using that by (simp add: StreamOut_writeInt32LE_eq number_gt_of_int number_lt_of_int)
    have r0: "map uint (StreamOut_bytes (snd (StreamOut_writeInt32LE (Fin (of_int v)) StreamOut_new)))
        = [v mod 4294967296 mod 256, v mod 4294967296 div 256 mod 256,
           v mod 4294967296 div 65536 mod 256, v mod 4294967296 div 16777216 mod 256]"
      by (simp only: w0 bytes_of_write written_bytes_32(1))
    show ?thesis
      using r0 by blast
  qed
  show ?thesis
    using c1 c2 g16 g32 gi by blast
qed

theorem byte_order_witness:
  "map uint (StreamOut_bytes (snd (StreamOut_writeUint32LE (Fin 0x01020304) StreamOut_new)))
     = [4, 3, 2, 1] \<and>
   map uint (StreamOut_bytes (snd (StreamOut_writeUint32BE (Fin 0x01020304) StreamOut_new)))
     = [1, 2, 3, 4] \<and>
   map uint (StreamOut_bytes (snd (StreamOut_writeUint16LE (Fin 0x0102) StreamOut_new)))
     = [2, 1] \<and>
   map uint (StreamOut_bytes (snd (StreamOut_writeUint16BE (Fin 0x0102) StreamOut_new)))
     = [1, 2] \<and>
   map uint (StreamOut_bytes (snd (StreamOut_writeInt32LE (Fin (- 2)) StreamOut_new)))
     = [254, 255, 255, 255]"
  using byte_order [of 16909060] byte_order [of 258] byte_order [of "- 2"]
  by simp

text \<open>
  C7, as the code has it. For \<open>0 \<le> length \<le> kMaxLength\<close> the writer's \<open>skip(length)\<close> is
  \<open>writeBytes\<close> of \<open>length\<close> zero bytes, and \<open>size()\<close> grows by \<open>length\<close>. The zeros are
  inserted at \<open>pos\<close> when the seek pointer lies inside the buffer
  (\<open>0 \<le> pos \<le> size()\<close>). \<open>pos\<close> grows by \<open>length\<close> when \<open>pos\<close> and \<open>pos + length\<close> are
  safe integers. On a fresh writer \<open>skip(3)\<close> gives the bytes \<open>[0, 0, 0]\<close> and \<open>pos = 3\<close>.
\<close>

theorem skip_writes_zeros:
  "(0 \<le> len \<and> len \<le> kMaxLength \<longrightarrow>
      StreamOut_skip len s = (Inr (), StreamOut_writeBytes (replicate (nat len) 0) s) \<and>
      StreamOut_size (snd (StreamOut_skip len s)) = StreamOut_size s + len) \<and>
   (0 \<le> len \<and> len \<le> kMaxLength \<and>
    0 \<le> StreamOut.pos s \<and> StreamOut.pos s \<le> StreamOut_size s \<longrightarrow>
      StreamOut.buffer (snd (StreamOut_skip len s))
        = take (nat (StreamOut.pos s)) (StreamOut.buffer s) @ replicate (nat len) 0
          @ drop (nat (StreamOut.pos s)) (StreamOut.buffer s)) \<and>
   (0 \<le> len \<and> len \<le> kMaxLength \<and>
    Number_isSafeInteger (StreamOut.pos s) \<and> Number_isSafeInteger (StreamOut.pos s + len) \<longrightarrow>
      StreamOut.pos (snd (StreamOut_skip len s)) = StreamOut.pos s + len) \<and>
   StreamOut_skip 3 StreamOut_new
     = (Inr (), \<lparr>StreamOut.buffer = [0, 0, 0], StreamOut.pos = 3\<rparr>)"
proof -
  have d: "StreamOut_skip len s = (Inr (), StreamOut_writeBytes (replicate (nat len) 0) s)"
    if "0 \<le> len" "len \<le> kMaxLength"
    using that by (simp add: StreamOut_skip_def Buffer_alloc_def)
  have g: "StreamOut_size (snd (StreamOut_skip len s)) = StreamOut_size s + len \<and>
      StreamOut.pos (snd (StreamOut_skip len s)) = StreamOut.pos s + len"
    if "0 \<le> len" "len \<le> kMaxLength"
    using that by (simp add: d writeBytes_size writeBytes_pos)
  have i: "StreamOut.buffer (snd (StreamOut_skip len s))
        = take (nat (StreamOut.pos s)) (StreamOut.buffer s) @ replicate (nat len) 0
          @ drop (nat (StreamOut.pos s)) (StreamOut.buffer s)"
    if "0 \<le> len" "len \<le> kMaxLength"
      "0 \<le> StreamOut.pos s" "StreamOut.pos s \<le> StreamOut_size s"
    using that by (simp add: d writeBytes_inside)
  have "replicate 3 (0 :: byte) = [0, 0, 0]"
    by (simp add: numeral_eq_Suc)
  then have c: "StreamOut_skip 3 StreamOut_new
     = (Inr (), \<lparr>StreamOut.buffer = [0, 0, 0], StreamOut.pos = 3\<rparr>)"
    by (simp add: StreamOut_skip_def Buffer_alloc_def kMaxLength_def writeBytes_new)
  show ?thesis
    using d g i c by blast
qed

theorem skip_writes_zeros_witness:
  "fst (StreamOut_skip 2 \<lparr>StreamOut.buffer = [1, 2, 3], StreamOut.pos = 1\<rparr>) = Inr () \<and>
   StreamOut.buffer (snd (StreamOut_skip 2 \<lparr>StreamOut.buffer = [1, 2, 3], StreamOut.pos = 1\<rparr>))
     = [1, 0, 0, 2, 3] \<and>
   StreamOut.pos (snd (StreamOut_skip 2 \<lparr>StreamOut.buffer = [1, 2, 3], StreamOut.pos = 1\<rparr>))
     = 3"
proof -
  have "replicate 2 (0 :: byte) = [0, 0]"
    by (simp add: numeral_eq_Suc)
  then show ?thesis
    using skip_writes_zeros [of 2 "\<lparr>StreamOut.buffer = [1, 2, 3], StreamOut.pos = 1\<rparr>"]
    by (simp add: StreamOut_size_def adjustOffset_def StreamOut_writeBytes_def
        Buffer_subarray_def Buffer_concat_def Number_isSafeInteger_def kMaxLength_def Let_def)
qed

text \<open>
  C7 as first stated has the zeros inserted at \<open>pos\<close> in every writer state and for every
  non-negative length. With \<open>pos = 5\<close> over the three bytes \<open>[1, 2, 3]\<close>, \<open>skip(2)\<close> puts
  the zeros at index 3, and index 5 holds no byte afterwards; and \<open>skip(2 ^ 53)\<close> on a
  fresh writer throws \<open>ERR_OUT_OF_RANGE\<close> and writes nothing.
\<close>

theorem skip_position_counterexample:
  "StreamOut_skip 2 \<lparr>StreamOut.buffer = [1, 2, 3], StreamOut.pos = 5\<rparr>
     = (Inr (), \<lparr>StreamOut.buffer = [1, 2, 3, 0, 0], StreamOut.pos = 7\<rparr>) \<and>
   StreamOut_skip 9007199254740992 StreamOut_new = (Inl ERR_OUT_OF_RANGE, StreamOut_new)"
proof -
  have "replicate 2 (0 :: byte) = [0, 0]"
    by (simp add: numeral_eq_Suc)
  then show ?thesis
    by (simp add: StreamOut_skip_def Buffer_alloc_def kMaxLength_def StreamOut_writeBytes_def
        Buffer_subarray_def adjustOffset_def Buffer_concat_def Let_def)
qed

text \<open>
  C8. \<open>seek(newPos)\<close> of the reader and of the writer sets \<open>pos\<close> to \<open>newPos\<close> for every
  integer \<open>newPos\<close>, negative or beyond the buffer, and leaves the buffer as it is. The
  reader's \<open>skip(length)\<close> leaves the buffer as it is and sets \<open>pos\<close> to \<open>pos + length\<close>,
  for \<open>pos\<close> and \<open>length\<close> of either sign, when \<open>pos\<close>, \<open>length\<close> and \<open>pos + length\<close> are
  safe integers (where the addition of the code is exact).
\<close>

theorem seek_skip_frame:
  "StreamIn.pos (StreamIn_seek newPos r) = newPos \<and>
   StreamIn.buffer (StreamIn_seek newPos r) = StreamIn.buffer r \<and>
   StreamOut.pos (StreamOut_seek newPos w) = newPos \<and>
   StreamOut.buffer (StreamOut_seek newPos w) = StreamOut.buffer w \<and>
   (Number_isSafeInteger (StreamIn.pos r) \<and> Number_isSafeInteger len \<and>
    Number_isSafeInteger (StreamIn.pos r + len) \<longrightarrow>
      StreamIn.pos (StreamIn_skip len r) = StreamIn.pos r + len) \<and>
   StreamIn.buffer (StreamIn_skip len r) = StreamIn.buffer r"
  by (simp add: StreamIn_seek_def StreamOut_seek_def StreamIn_skip_def)

theorem seek_skip_frame_witness:
  "StreamIn_seek (- 7) \<lparr>StreamIn.buffer = [1, 2], StreamIn.pos = 1\<rparr>
     = \<lparr>StreamIn.buffer = [1, 2], StreamIn.pos = - 7\<rparr> \<and>
   StreamOut_seek 99 \<lparr>StreamOut.buffer = [1, 2], StreamOut.pos = 1\<rparr>
     = \<lparr>StreamOut.buffer = [1, 2], StreamOut.pos = 99\<rparr> \<and>
   StreamIn_skip (- 3) \<lparr>StreamIn.buffer = [1, 2], StreamIn.pos = 1\<rparr>
     = \<lparr>StreamIn.buffer = [1, 2], StreamIn.pos = - 2\<rparr>"
  using seek_skip_frame [of "- 7" "\<lparr>StreamIn.buffer = [1, 2], StreamIn.pos = 1\<rparr>"
      "\<lparr>StreamOut.buffer = [1, 2], StreamOut.pos = 1\<rparr>" "- 3"]
    seek_skip_frame [of 99 "\<lparr>StreamIn.buffer = [1, 2], StreamIn.pos = 1\<rparr>"
      "\<lparr>StreamOut.buffer = [1, 2], StreamOut.pos = 1\<rparr>" "- 3"]
  by (simp add: StreamIn_seek_def StreamOut_seek_def StreamIn_skip_def
      Number_isSafeInteger_def)

text \<open>
  C9. A write beyond the end. When \<open>pos > size()\<close>, \<open>writeBytes(data)\<close> appends \<open>data\<close>
  to the buffer without padding and \<open>size()\<close> grows by \<open>data.length\<close>; with \<open>pos\<close> and
  \<open>pos + data.length\<close> safe integers (where the addition of the code is exact), \<open>pos\<close>
  grows by \<open>data.length\<close> too, and so stays as far beyond the end as it was.
\<close>

theorem writeBytes_beyond_end:
  assumes "StreamOut_size s < StreamOut.pos s"
    and "Number_isSafeInteger (StreamOut.pos s)"
    and "Number_isSafeInteger (StreamOut.pos s + int (length data))"
  shows
    "StreamOut.buffer (StreamOut_writeBytes data s) = StreamOut.buffer s @ data \<and>
     StreamOut_size (StreamOut_writeBytes data s) = StreamOut_size s + int (length data) \<and>
     StreamOut.pos (StreamOut_writeBytes data s) = StreamOut.pos s + int (length data) \<and>
     StreamOut.pos (StreamOut_writeBytes data s) - StreamOut_size (StreamOut_writeBytes data s)
       = StreamOut.pos s - StreamOut_size s"
proof -
  have "adjustOffset (StreamOut.pos s) (StreamOut_size s) = StreamOut_size s"
    using assms(1) by (intro adjustOffset_beyond) (simp_all add: StreamOut_size_def)
  then have "StreamOut.buffer (StreamOut_writeBytes data s) = StreamOut.buffer s @ data"
    by (simp add: writeBytes_buffer) (simp add: StreamOut_size_def)
  then show ?thesis
    by (simp add: writeBytes_size writeBytes_pos)
qed

theorem writeBytes_beyond_end_witness:
  "StreamOut_writeBytes [9, 8] \<lparr>StreamOut.buffer = [1, 2, 3], StreamOut.pos = 5\<rparr>
     = \<lparr>StreamOut.buffer = [1, 2, 3, 9, 8], StreamOut.pos = 7\<rparr>"
  using writeBytes_beyond_end [of "\<lparr>StreamOut.buffer = [1, 2, 3], StreamOut.pos = 5\<rparr>" "[9, 8]"]
  by (simp add: StreamOut_size_def Number_isSafeInteger_def)

text \<open>
  C10, as the code has it. A \<open>writeX\<close> of a value above the maximum or below the minimum
  of its integer type (an integer, a fraction, or an infinity) throws the range error
  \<open>ERR_OUT_OF_RANGE\<close>, and the writer is as it was before the call. Every other value
  is accepted, a fraction inside the range and NaN included, and written: \<open>writeBytes\<close>
  receives the bytes of the value truncated towards zero (0 for NaN), in the byte order
  of the method.
\<close>

theorem out_of_range_write_rejected:
  "(number_gt v 255 \<or> number_lt v 0 \<longrightarrow>
      StreamOut_writeUint8 v s = (Inl ERR_OUT_OF_RANGE, s)) \<and>
   (number_gt v 65535 \<or> number_lt v 0 \<longrightarrow>
      StreamOut_writeUint16LE v s = (Inl ERR_OUT_OF_RANGE, s) \<and>
      StreamOut_writeUint16BE v s = (Inl ERR_OUT_OF_RANGE, s)) \<and>
   (number_gt v 4294967295 \<or> number_lt v 0 \<longrightarrow>
      StreamOut_writeUint32LE v s = (Inl ERR_OUT_OF_RANGE, s) \<and>
      StreamOut_writeUint32BE v s = (Inl ERR_OUT_OF_RANGE, s)) \<and>
   (number_gt v 2147483647 \<or> number_lt v (- 2147483648) \<longrightarrow>
      StreamOut_writeInt32LE v s = (Inl ERR_OUT_OF_RANGE, s)) \<and>
   (\<not> (number_gt v 255 \<or> number_lt v 0) \<longrightarrow>
      StreamOut_writeUint8 v s = (Inr (), StreamOut_writeBytes [ToUint8 v] s)) \<and>
   (\<not> (number_gt v 65535 \<or> number_lt v 0) \<longrightarrow>
      StreamOut_writeUint16LE v s
        = (Inr (), StreamOut_writeBytes [ToUint8 v, ucast (drop_bit 8 (ToUint32 v))] s) \<and>
      StreamOut_writeUint16BE v s
        = (Inr (), StreamOut_writeBytes [ucast (drop_bit 8 (ToUint32 v)), ToUint8 v] s)) \<and>
   (\<not> (number_gt v 4294967295 \<or> number_lt v 0) \<longrightarrow>
      StreamOut_writeUint32LE v s
        = (Inr (), StreamOut_writeBytes
             [ToUint8 v, ucast (drop_bit 8 (ToUint32 v)),
              ucast (drop_bit 8 (drop_bit 8 (ToUint32 v))),
              ucast (drop_bit 8 (drop_bit 8 (drop_bit 8 (ToUint32 v))))] s) \<and>
      StreamOut_writeUint32BE v s
        = (Inr (), StreamOut_writeBytes
             [ucast (drop_bit 8 (drop_bit 8 (drop_bit 8 (ToUint32 v)))),
              ucast (drop_bit 8 (drop_bit 8 (ToUint32 v))),
              ucast (drop_bit 8 (ToUint32 v)), ToUint8 v] s)) \<and>
   (\<not> (number_gt v 2147483647 \<or> number_lt v (- 2147483648)) \<longrightarrow>
      StreamOut_writeInt32LE v s
        = (Inr (), StreamOut_writeBytes
             [ToUint8 v, ucast (drop_bit 8 (ToUint32 v)),
              ucast (drop_bit 8 (drop_bit 8 (ToUint32 v))),
              ucast (drop_bit 8 (drop_bit 8 (drop_bit 8 (ToUint32 v))))] s)) \<and>
   (0 \<le> q \<and> q \<le> 255 \<longrightarrow>
      StreamOut_writeUint8 (Fin q) s
        = (Inr (), StreamOut_writeBytes [word_of_int \<lfloor>q\<rfloor>] s)) \<and>
   StreamOut_writeUint8 NaN s = (Inr (), StreamOut_writeBytes [0] s)"
proof -
  have a: "StreamOut_writeUint8 (Fin q) s
        = (Inr (), StreamOut_writeBytes [word_of_int \<lfloor>q\<rfloor>] s)"
    if "0 \<le> q" "q \<le> 255"
    using that
    by (simp add: StreamOut_writeUint8_eq number_gt_def number_lt_def ToUint8_def
        truncate_number_def)
  have b: "StreamOut_writeUint8 NaN s = (Inr (), StreamOut_writeBytes [0] s)"
    by (simp add: StreamOut_writeUint8_eq number_gt_def number_lt_def ToUint8_def
        truncate_number_def)
  have c: "(number_gt v 255 \<or> number_lt v 0 \<longrightarrow>
      StreamOut_writeUint8 v s = (Inl ERR_OUT_OF_RANGE, s)) \<and>
   (\<not> (number_gt v 255 \<or> number_lt v 0) \<longrightarrow>
      StreamOut_writeUint8 v s = (Inr (), StreamOut_writeBytes [ToUint8 v] s))"
    by (simp add: StreamOut_writeUint8_eq)
  have d: "(number_gt v 65535 \<or> number_lt v 0 \<longrightarrow>
      StreamOut_writeUint16LE v s = (Inl ERR_OUT_OF_RANGE, s) \<and>
      StreamOut_writeUint16BE v s = (Inl ERR_OUT_OF_RANGE, s)) \<and>
   (\<not> (number_gt v 65535 \<or> number_lt v 0) \<longrightarrow>
      StreamOut_writeUint16LE v s
        = (Inr (), StreamOut_writeBytes [ToUint8 v, ucast (drop_bit 8 (ToUint32 v))] s) \<and>
      StreamOut_writeUint16BE v s
        = (Inr (), StreamOut_writeBytes [ucast (drop_bit 8 (ToUint32 v)), ToUint8 v] s))"
    by (simp only: StreamOut_writeUint16LE_eq StreamOut_writeUint16BE_eq if_P if_not_P)
      simp
  have e: "(number_gt v 4294967295 \<or> number_lt v 0 \<longrightarrow>
      StreamOut_writeUint32LE v s = (Inl ERR_OUT_OF_RANGE, s) \<and>
      StreamOut_writeUint32BE v s = (Inl ERR_OUT_OF_RANGE, s)) \<and>
   (\<not> (number_gt v 4294967295 \<or> number_lt v 0) \<longrightarrow>
      StreamOut_writeUint32LE v s
        = (Inr (), StreamOut_writeBytes
             [ToUint8 v, ucast (drop_bit 8 (ToUint32 v)),
              ucast (drop_bit 8 (drop_bit 8 (ToUint32 v))),
              ucast (drop_bit 8 (drop_bit 8 (drop_bit 8 (ToUint32 v))))] s) \<and>
      StreamOut_writeUint32BE v s
        = (Inr (), StreamOut_writeBytes
             [ucast (drop_bit 8 (drop_bit 8 (drop_bit 8 (ToUint32 v)))),
              ucast (drop_bit 8 (drop_bit 8 (ToUint32 v))),
              ucast (drop_bit 8 (ToUint32 v)), ToUint8 v] s))"
    by (simp only: StreamOut_writeUint32LE_eq StreamOut_writeUint32BE_eq if_P if_not_P)
      simp
  have f: "(number_gt v 2147483647 \<or> number_lt v (- 2147483648) \<longrightarrow>
      StreamOut_writeInt32LE v s = (Inl ERR_OUT_OF_RANGE, s)) \<and>
   (\<not> (number_gt v 2147483647 \<or> number_lt v (- 2147483648)) \<longrightarrow>
      StreamOut_writeInt32LE v s
        = (Inr (), StreamOut_writeBytes
             [ToUint8 v, ucast (drop_bit 8 (ToUint32 v)),
              ucast (drop_bit 8 (drop_bit 8 (ToUint32 v))),
              ucast (drop_bit 8 (drop_bit 8 (drop_bit 8 (ToUint32 v))))] s))"
    by (simp only: StreamOut_writeInt32LE_eq if_P if_not_P) simp
  show ?thesis
    using a b c d e f by blast
qed

theorem out_of_range_write_rejected_witness:
  "StreamOut_writeUint8 (Fin 256) \<lparr>StreamOut.buffer = [1, 2, 3], StreamOut.pos = 1\<rparr>
     = (Inl ERR_OUT_OF_RANGE, \<lparr>StreamOut.buffer = [1, 2, 3], StreamOut.pos = 1\<rparr>) \<and>
   StreamOut_writeUint16LE (Fin (- 1 / 2)) \<lparr>StreamOut.buffer = [1, 2, 3], StreamOut.pos = 1\<rparr>
     = (Inl ERR_OUT_OF_RANGE, \<lparr>StreamOut.buffer = [1, 2, 3], StreamOut.pos = 1\<rparr>) \<and>
   StreamOut_writeInt32LE PosInf \<lparr>StreamOut.buffer = [1, 2, 3], StreamOut.pos = 1\<rparr>
     = (Inl ERR_OUT_OF_RANGE, \<lparr>StreamOut.buffer = [1, 2, 3], StreamOut.pos = 1\<rparr>) \<and>
   StreamOut_writeUint32BE (Fin 4294967296) \<lparr>StreamOut.buffer = [1, 2, 3], StreamOut.pos = 1\<rparr>
     = (Inl ERR_OUT_OF_RANGE, \<lparr>StreamOut.buffer = [1, 2, 3], StreamOut.pos = 1\<rparr>) \<and>
   StreamOut_writeUint8 (Fin (5 / 2)) \<lparr>StreamOut.buffer = [1, 2, 3], StreamOut.pos = 1\<rparr>
     = (Inr (), \<lparr>StreamOut.buffer = [1, 2, 2, 3], StreamOut.pos = 2\<rparr>) \<and>
   StreamOut_writeUint8 NaN \<lparr>StreamOut.buffer = [1, 2, 3], StreamOut.pos = 1\<rparr>
     = (Inr (), \<lparr>StreamOut.buffer = [1, 0, 2, 3], StreamOut.pos = 2\<rparr>)"
proof -
  let ?s = "\<lparr>StreamOut.buffer = [1, 2, 3], StreamOut.pos = 1\<rparr>"
  have h1: "number_gt (Fin 256) 255 \<or> number_lt (Fin 256) 0"
    by (simp add: number_gt_def)
  have h2: "number_gt (Fin (- 1 / 2)) 65535 \<or> number_lt (Fin (- 1 / 2)) 0"
    by (simp add: number_lt_def)
  have h3: "number_gt PosInf 2147483647 \<or> number_lt PosInf (- 2147483648)"
    by (simp add: number_gt_def)
  have h4: "number_gt (Fin 4294967296) 4294967295 \<or> number_lt (Fin 4294967296) 0"
    by (simp add: number_gt_def)
  have h5: "0 \<le> (5 / 2 :: rat) \<and> (5 / 2 :: rat) \<le> 255"
    by simp
  have f: "\<lfloor>5 / 2 :: rat\<rfloor> = 2"
    by (simp add: floor_unique)
  have w: "StreamOut_writeBytes [b] ?s
             = \<lparr>StreamOut.buffer = [1, b, 2, 3], StreamOut.pos = 2\<rparr>" for b
    by (simp add: StreamOut_writeBytes_def Buffer_subarray_def adjustOffset_def
        Buffer_concat_def Let_def)
  have c1: "StreamOut_writeUint8 (Fin 256) ?s = (Inl ERR_OUT_OF_RANGE, ?s)"
    using out_of_range_write_rejected [of "Fin 256" ?s "5 / 2"] h1 by blast
  have c2: "StreamOut_writeUint16LE (Fin (- 1 / 2)) ?s = (Inl ERR_OUT_OF_RANGE, ?s)"
    using out_of_range_write_rejected [of "Fin (- 1 / 2)" ?s "5 / 2"] h2 by blast
  have c3: "StreamOut_writeInt32LE PosInf ?s = (Inl ERR_OUT_OF_RANGE, ?s)"
    using out_of_range_write_rejected [of PosInf ?s "5 / 2"] h3 by blast
  have c4: "StreamOut_writeUint32BE (Fin 4294967296) ?s = (Inl ERR_OUT_OF_RANGE, ?s)"
    using out_of_range_write_rejected [of "Fin 4294967296" ?s "5 / 2"] h4 by blast
  have c5: "StreamOut_writeUint8 (Fin (5 / 2)) ?s
              = (Inr (), StreamOut_writeBytes [word_of_int \<lfloor>5 / 2 :: rat\<rfloor>] ?s)"
    using out_of_range_write_rejected [of NaN ?s "5 / 2"] h5 by blast
  have c6: "StreamOut_writeUint8 NaN ?s = (Inr (), StreamOut_writeBytes [0] ?s)"
    using out_of_range_write_rejected [of NaN ?s "5 / 2"] by blast
  show ?thesis
    unfolding c1 c2 c3 c4 c5 c6 f w by simp
qed

text \<open>
  C10 as first stated expects a range error for every value that is not an integer. On a
  fresh writer \<open>writeUint8(1.5)\<close> throws nothing and stores the byte 1.
\<close>

theorem noninteger_write_counterexample:
  "StreamOut_writeUint8 (Fin (3 / 2)) StreamOut_new
     = (Inr (), \<lparr>StreamOut.buffer = [1], StreamOut.pos = 1\<rparr>)"
proof -
  have "\<lfloor>3 / 2 :: rat\<rfloor> = 1"
    by (simp add: floor_unique)
  then have "ToUint8 (Fin (3 / 2)) = 1"
    by (simp add: ToUint8_def truncate_number_def)
  then show ?thesis
    by (simp add: StreamOut_writeUint8_eq number_gt_def number_lt_def writeBytes_new)
qed

end
